theory Spec2Isabelle
  imports Complex_Main "HOL-Library.Word" "HOL-Library.Log_Nat"
begin

section \<open>Data model of pyyuv.py\<close>

text \<open>
  The source is Python 2 (it uses the \<^verbatim>\<open>print\<close> statement), so \<^verbatim>\<open>/\<close> on two
  integers is floor division, which is \<open>div\<close> on \<open>int\<close>.  Python integers are
  unbounded and are modelled by \<open>int\<close>.

  Exceptions are values of the type \<open>error\<close>; a function that can raise returns
  \<open>error + 'a\<close>.  \<open>ParserError msg\<close> stands for \<^verbatim>\<open>parser.error(msg)\<close> of optparse,
  which prints the message and leaves the program.
\<close>

datatype error = ValueError | TypeError | IOError | ParserError string

type_synonym byte = "8 word"

text \<open>
  The integer element types that occur: \<^verbatim>\<open>np.uint8\<close> and \<^verbatim>\<open>np.uint16\<close> (the two
  values of \<^verbatim>\<open>self.dtype\<close>) and the default integer type of numpy, a signed 64-bit
  integer, which is the type of the arrays made from the lists \<^verbatim>\<open>[1,1]\<close> and
  \<^verbatim>\<open>[[1],[1]]\<close>.
\<close>

datatype dtype = UInt8 | UInt16 | Int64

text \<open>
  A two-dimensional numpy array: its shape (rows, columns) and its items in row-major
  order.  An integer array carries its element type; the other arrays are \<^verbatim>\<open>float64\<close>.
  An item of a \<^verbatim>\<open>float64\<close> array is the real number it denotes.  The result of a
  \<^verbatim>\<open>float64\<close> operation is the exact result rounded to a \<^verbatim>\<open>float64\<close> number; the
  rounding is a parameter \<open>fl\<close> of every function whose \<^verbatim>\<open>float64\<close> results can need
  it, and a decimal constant of the source (\<^verbatim>\<open>1.402\<close> and so on) is \<open>fl\<close> of the
  fraction it denotes.
\<close>

datatype ndarray =
    IntArray dtype nat nat "int list"
  | FloatArray nat nat "real list"

fun nrows :: "ndarray \<Rightarrow> nat" where
  "nrows (IntArray d r c xs) = r"
| "nrows (FloatArray r c xs) = r"

fun ncols :: "ndarray \<Rightarrow> nat" where
  "ncols (IntArray d r c xs) = c"
| "ncols (FloatArray r c xs) = c"

text \<open>\<^verbatim>\<open>np.size(a)\<close>: the number of items, the product of the shape.\<close>

definition np_size :: "ndarray \<Rightarrow> nat" where
  "np_size a = nrows a * ncols a"

text \<open>The item at a flat position, as the real number a \<^verbatim>\<open>float64\<close> conversion gives.\<close>

fun fval :: "ndarray \<Rightarrow> nat \<Rightarrow> real" where
  "fval (IntArray d r c xs) k = real_of_int (xs ! k)"
| "fval (FloatArray r c xs) k = xs ! k"

text \<open>The item at a flat position as an operand of a \<^verbatim>\<open>float64\<close> operation: an integer
  item is converted, which rounds it; a \<^verbatim>\<open>float64\<close> item is taken as it is.\<close>

fun fitem :: "(real \<Rightarrow> real) \<Rightarrow> ndarray \<Rightarrow> nat \<Rightarrow> real" where
  "fitem fl (IntArray d r c xs) k = fl (real_of_int (xs ! k))"
| "fitem fl (FloatArray r c xs) k = xs ! k"

text \<open>
  The rounding of IEEE 754 binary64 in the default mode, for the values this program
  computes: the nearest number with a significand of 53 bits, the one with an even
  significand when two are equally near.  \<open>e\<close> is the exponent of the leading bit of
  \<open>x\<close> and \<open>u\<close> the weight of the last bit of the significand.  The exponent is
  not limited here (no overflow to infinity, no subnormal numbers).
\<close>

definition binary64 :: "real \<Rightarrow> real" where
  "binary64 x =
    (if x = 0 then 0
     else
       (let a = \<bar>x\<bar>;
            e = (if 1 \<le> a then bitlen \<lfloor>a\<rfloor> - 1
                 else (let k = bitlen \<lfloor>1 / a\<rfloor> - 1
                       in if a * 2 ^ nat k = 1 then - k else - k - 1));
            u = (if 52 \<le> e then 2 ^ nat (e - 52) else 1 / 2 ^ nat (52 - e));
            q = x / u;
            n = \<lfloor>q\<rfloor>;
            r = q - real_of_int n;
            m = (if r < 1 / 2 then n else if 1 / 2 < r then n + 1
                 else if even n then n else n + 1)
        in real_of_int m * u))"

text \<open>The values an element type holds, and the reduction numpy's integer arithmetic
  performs on overflow (modulo \<open>2 ^ 8\<close>, \<open>2 ^ 16\<close>, and two's complement on 64 bits).\<close>

fun itemsize :: "dtype \<Rightarrow> nat" where
  "itemsize UInt8 = 1"
| "itemsize UInt16 = 2"
| "itemsize Int64 = 8"

fun wrap :: "dtype \<Rightarrow> int \<Rightarrow> int" where
  "wrap UInt8 x = x mod 2 ^ 8"
| "wrap UInt16 x = x mod 2 ^ 16"
| "wrap Int64 x = (x + 2 ^ 63) mod 2 ^ 64 - 2 ^ 63"

fun in_range :: "dtype \<Rightarrow> int \<Rightarrow> bool" where
  "in_range UInt8 x = (0 \<le> x \<and> x < 2 ^ 8)"
| "in_range UInt16 x = (0 \<le> x \<and> x < 2 ^ 16)"
| "in_range Int64 x = (- (2 ^ 63) \<le> x \<and> x < 2 ^ 63)"

text \<open>Type promotion of two integer arrays, restricted to the three types above.\<close>

fun promote :: "dtype \<Rightarrow> dtype \<Rightarrow> dtype" where
  "promote Int64 d = Int64"
| "promote d Int64 = Int64"
| "promote UInt16 d = UInt16"
| "promote d UInt16 = UInt16"
| "promote UInt8 UInt8 = UInt8"

text \<open>
  What every numpy array satisfies: as many items as the shape says, each a value of
  the element type.
\<close>

fun wf_array :: "ndarray \<Rightarrow> bool" where
  "wf_array (IntArray d r c xs) = (length xs = r * c \<and> list_all (in_range d) xs)"
| "wf_array (FloatArray r c xs) = (length xs = r * c)"

text \<open>
  The file object held in \<^verbatim>\<open>self.handle\<close>.  A file opened for reading is the list of
  bytes from the read position to the end of the file; a file opened for writing is the
  list of bytes written so far.  \<open>None\<close> is the value before \<^verbatim>\<open>open\<close>.
\<close>

datatype handle = Reader "byte list" | Writer "byte list"

record YuvFile =
  name :: string
  mode :: string
  width :: int
  height :: int
  colour :: int
  depth :: int
  handle :: "handle option"
  h_smpl :: int
  v_smpl :: int
  dtype :: dtype
  round_bias :: int
  shift :: int
  y_shape :: "int \<times> int"
  y_size :: int
  uv_shape :: "int \<times> int"
  uv_size :: int

definition CSPACE_420 :: int where "CSPACE_420 = 420"
definition CSPACE_422 :: int where "CSPACE_422 = 422"
definition DEPTH_8 :: int where "DEPTH_8 = 8"
definition DEPTH_10 :: int where "DEPTH_10 = 10"

section \<open>The constructor\<close>

text \<open>
  \<^verbatim>\<open>YuvFile.__init__\<close>.  The field \<open>round_bias\<close> is \<^verbatim>\<open>self.round\<close>.  The body has no
  \<^verbatim>\<open>raise\<close> and no check of its arguments; the only division is by \<^verbatim>\<open>v_smpl\<close> and
  \<^verbatim>\<open>h_smpl\<close>, which are 1 or 2.  The result type is a sum all the same, so that
  "construction fails" can be stated.
\<close>

definition YuvFile_init ::
  "string \<Rightarrow> string \<Rightarrow> int \<Rightarrow> int \<Rightarrow> int \<Rightarrow> int \<Rightarrow> error + YuvFile" where
  "YuvFile_init nm md w h c d =
    (let hs = 2;
         vs = (if c = CSPACE_420 then 2 else 1);
         dt = (if d = DEPTH_10 then UInt16 else UInt8);
         rnd = (if d = DEPTH_10 then 1 else 0);
         sh = (if d = DEPTH_10 then 2 else 0);
         ys = (h, w);
         ysz = fst ys * snd ys;
         uvs = (h div vs, w div hs);
         uvsz = fst uvs * snd uvs
     in Inr \<lparr> name = nm, mode = md, width = w, height = h, colour = c, depth = d,
              handle = None, h_smpl = hs, v_smpl = vs, dtype = dt, round_bias = rnd,
              shift = sh, y_shape = ys, y_size = ysz, uv_shape = uvs, uv_size = uvsz \<rparr>)"

section \<open>Reading and writing frames\<close>

text \<open>
  Items are stored in the byte order of the machine, little-endian here (as the
  specification says): the least significant byte first, negative values of a signed
  type in two's complement.
\<close>

fun le_bytes :: "nat \<Rightarrow> int \<Rightarrow> byte list" where
  "le_bytes 0 x = []"
| "le_bytes (Suc n) x = word_of_int x # le_bytes n (x div 256)"

fun le_val :: "byte list \<Rightarrow> int" where
  "le_val [] = 0"
| "le_val (b # bs) = uint b + 256 * le_val bs"

definition encode :: "dtype \<Rightarrow> int \<Rightarrow> byte list" where
  "encode d x = le_bytes (itemsize d) x"

definition decode :: "dtype \<Rightarrow> byte list \<Rightarrow> int" where
  "decode d bs = wrap d (le_val bs)"

text \<open>The first \<open>n\<close> items of the element type \<open>d\<close> in a byte list.\<close>

definition items_of :: "dtype \<Rightarrow> nat \<Rightarrow> byte list \<Rightarrow> int list" where
  "items_of d n bs = map (\<lambda>k. decode d (take (itemsize d) (drop (k * itemsize d) bs))) [0..<n]"

text \<open>
  \<^verbatim>\<open>np.fromfile(handle, dtype, count)\<close> on a Python 2 file object: a binary read of at
  most \<open>count\<close> items.  It returns the one-dimensional array of the complete items it
  obtained, which is shorter than \<open>count\<close> when the file ends first; it does not raise
  then.  A read that stops short has consumed the file to its end.  A negative count
  reads every complete item that is left.  Without an open file the call raises
  \<^verbatim>\<open>IOError\<close>; reading from a file opened for writing is modelled as \<^verbatim>\<open>IOError\<close> too
  (the program never does it).
\<close>

definition fromfile :: "handle option \<Rightarrow> dtype \<Rightarrow> int \<Rightarrow> error + (handle option \<times> int list)" where
  "fromfile h d count =
    (case h of
       None \<Rightarrow> Inl IOError
     | Some (Writer ws) \<Rightarrow> Inl IOError
     | Some (Reader bs) \<Rightarrow>
         (let sz = itemsize d;
              avail = length bs div sz;
              n = (if count < 0 then avail else min (nat count) avail);
              items = items_of d n bs;
              rest = (if count < 0 \<or> nat count \<le> avail then drop (n * sz) bs else [])
          in Inr (Some (Reader rest), items)))"

text \<open>
  \<^verbatim>\<open>a.reshape(shape)\<close> of a one-dimensional array with a shape of two Python integers.
  The items stay as they are; the call raises \<^verbatim>\<open>ValueError\<close> when the shape does not
  hold exactly the items of the array.  A negative entry of the shape is the unknown
  dimension of numpy, worked out from the other one; two of them are an error.
\<close>

definition reshape :: "dtype \<Rightarrow> int list \<Rightarrow> int \<times> int \<Rightarrow> error + ndarray" where
  "reshape d xs s =
    (case s of (r, c) \<Rightarrow>
       if 0 \<le> r \<and> 0 \<le> c then
         (if r * c = int (length xs) then Inr (IntArray d (nat r) (nat c) xs)
          else Inl ValueError)
       else if r < 0 \<and> c < 0 then Inl ValueError
       else
         (let k = nat (if r < 0 then c else r) in
          if k = 0 \<or> length xs mod k \<noteq> 0 then Inl ValueError
          else if r < 0 then Inr (IntArray d (length xs div k) k xs)
          else Inr (IntArray d k (length xs div k) xs)))"

text \<open>\<^verbatim>\<open>np.empty([0, 0])\<close>: the \<^verbatim>\<open>float64\<close> array of shape (0, 0), which has no item.\<close>

definition np_empty_0_0 :: ndarray where
  "np_empty_0_0 = FloatArray 0 0 []"

text \<open>
  \<^verbatim>\<open>YuvFile.read_frame\<close>.  The file object is shared state: the result carries the
  object with the handle where the reads left it.  The three statements of the
  \<^verbatim>\<open>try\<close> block run in order; a \<^verbatim>\<open>ValueError\<close> of any \<^verbatim>\<open>reshape\<close> ends the block (the
  reads after it do not happen) and the handler sets all three arrays.  Another
  exception is not caught.
\<close>

definition read_frame :: "YuvFile \<Rightarrow> error + (YuvFile \<times> ndarray \<times> ndarray \<times> ndarray)" where
  "read_frame f =
    (let sentinel = (np_empty_0_0, np_empty_0_0, np_empty_0_0) in
     case fromfile (handle f) (dtype f) (y_size f) of
       Inl e \<Rightarrow> Inl e
     | Inr (h1, ys) \<Rightarrow>
        (case reshape (dtype f) ys (y_shape f) of
           Inl e \<Rightarrow> (if e = ValueError then Inr (f\<lparr>handle := h1\<rparr>, sentinel) else Inl e)
         | Inr y \<Rightarrow>
            (case fromfile h1 (dtype f) (uv_size f) of
               Inl e \<Rightarrow> Inl e
             | Inr (h2, us) \<Rightarrow>
                (case reshape (dtype f) us (uv_shape f) of
                   Inl e \<Rightarrow> (if e = ValueError then Inr (f\<lparr>handle := h2\<rparr>, sentinel) else Inl e)
                 | Inr u \<Rightarrow>
                    (case fromfile h2 (dtype f) (uv_size f) of
                       Inl e \<Rightarrow> Inl e
                     | Inr (h3, vs) \<Rightarrow>
                        (case reshape (dtype f) vs (uv_shape f) of
                           Inl e \<Rightarrow> (if e = ValueError then Inr (f\<lparr>handle := h3\<rparr>, sentinel)
                                     else Inl e)
                         | Inr v \<Rightarrow> Inr (f\<lparr>handle := h3\<rparr>, y, u, v)))))))"

text \<open>
  \<^verbatim>\<open>a.tofile(handle)\<close>: the items in row-major order, each in the width of the element
  type, with nothing before, between or after them.  The bytes of a \<^verbatim>\<open>float64\<close> item
  are those of its IEEE 754 binary64 format, which this model does not have: the
  function \<open>f64\<close> that gives them is a parameter.  Without a file opened for writing
  the call is modelled as \<^verbatim>\<open>IOError\<close>.
\<close>

fun tobytes :: "(real \<Rightarrow> byte list) \<Rightarrow> ndarray \<Rightarrow> byte list" where
  "tobytes f64 (IntArray d r c xs) = concat (map (encode d) xs)"
| "tobytes f64 (FloatArray r c xs) = concat (map f64 xs)"

definition tofile :: "(real \<Rightarrow> byte list) \<Rightarrow> ndarray \<Rightarrow> handle option \<Rightarrow> error + handle option" where
  "tofile f64 a h =
    (case h of
       Some (Writer ws) \<Rightarrow> Inr (Some (Writer (ws @ tobytes f64 a)))
     | _ \<Rightarrow> Inl IOError)"

text \<open>\<^verbatim>\<open>YuvFile.write_frame\<close>: Y, then U, then V; the first failure ends the call.\<close>

definition write_frame ::
  "(real \<Rightarrow> byte list) \<Rightarrow> YuvFile \<Rightarrow> ndarray \<Rightarrow> ndarray \<Rightarrow> ndarray \<Rightarrow> error + YuvFile" where
  "write_frame f64 f y u v =
    (case tofile f64 y (handle f) of
       Inl e \<Rightarrow> Inl e
     | Inr h1 \<Rightarrow>
        (case tofile f64 u h1 of
           Inl e \<Rightarrow> Inl e
         | Inr h2 \<Rightarrow>
            (case tofile f64 v h2 of
               Inl e \<Rightarrow> Inl e
             | Inr h3 \<Rightarrow> Inr (f\<lparr>handle := h3\<rparr>))))"

section \<open>Array arithmetic\<close>

text \<open>
  \<^verbatim>\<open>np.kron(a, b)\<close> of two-dimensional arrays: the array of shape
  (rows a * rows b, columns a * columns b) whose item (i, j) is the product of item
  (i div rows b, j div columns b) of \<open>a\<close> and item (i mod rows b, j mod columns b)
  of \<open>b\<close>.  Two integer arrays give an integer array of the promoted type.  The
  source calls it with the two arrays of ones below only, and the product of a
  \<^verbatim>\<open>float64\<close> item and 1 is that item: no product is rounded.
\<close>

definition kron_src :: "ndarray \<Rightarrow> ndarray \<Rightarrow> nat \<Rightarrow> nat \<times> nat" where
  "kron_src a b k =
    (let i = k div (ncols a * ncols b); j = k mod (ncols a * ncols b)
     in ((i div nrows b) * ncols a + j div ncols b,
         (i mod nrows b) * ncols b + j mod ncols b))"

fun kron :: "ndarray \<Rightarrow> ndarray \<Rightarrow> ndarray" where
  "kron (IntArray d1 r1 c1 xs) (IntArray d2 r2 c2 ys) =
     IntArray (promote d1 d2) (r1 * r2) (c1 * c2)
       (map (\<lambda>k. case kron_src (IntArray d1 r1 c1 xs) (IntArray d2 r2 c2 ys) k of
                    (p, q) \<Rightarrow> wrap (promote d1 d2) (xs ! p * ys ! q))
            [0..<(r1 * r2) * (c1 * c2)])"
| "kron a b =
     FloatArray (nrows a * nrows b) (ncols a * ncols b)
       (map (\<lambda>k. case kron_src a b k of (p, q) \<Rightarrow> fval a p * fval b q)
            [0..<(nrows a * nrows b) * (ncols a * ncols b)])"

text \<open>
  The list \<^verbatim>\<open>[1,1]\<close> as \<^verbatim>\<open>np.kron\<close> sees it next to a two-dimensional array (one
  row, two columns) and the list \<^verbatim>\<open>[[1],[1]]\<close> (two rows, one column).
\<close>

definition ones_1x2 :: ndarray where
  "ones_1x2 = IntArray Int64 1 2 [1, 1]"

definition ones_2x1 :: ndarray where
  "ones_2x1 = IntArray Int64 2 1 [1, 1]"

text \<open>\<^verbatim>\<open>YuvFile.__upsample_chroma\<close>.\<close>

definition upsample_chroma :: "YuvFile \<Rightarrow> ndarray \<Rightarrow> ndarray" where
  "upsample_chroma f p =
    (let q = kron p ones_1x2
     in if colour f = CSPACE_420 then kron q ones_2x1 else q)"

text \<open>
  An array and a Python integer (\<^verbatim>\<open>y + self.round\<close>, \<^verbatim>\<open>cr8 - 2**7\<close>).  The integers
  that occur are 0, 1 and 128, which every element type holds, so an integer array
  keeps its type and the result is reduced to it.  On a \<^verbatim>\<open>float64\<close> array the integer
  is converted and the sum or difference is the \<^verbatim>\<open>float64\<close> one.
\<close>

fun add_int :: "(real \<Rightarrow> real) \<Rightarrow> ndarray \<Rightarrow> int \<Rightarrow> ndarray" where
  "add_int fl (IntArray d r c xs) k = IntArray d r c (map (\<lambda>x. wrap d (x + k)) xs)"
| "add_int fl (FloatArray r c xs) k =
     FloatArray r c (map (\<lambda>x. fl (x + fl (real_of_int k))) xs)"

fun sub_int :: "(real \<Rightarrow> real) \<Rightarrow> ndarray \<Rightarrow> int \<Rightarrow> ndarray" where
  "sub_int fl (IntArray d r c xs) k = IntArray d r c (map (\<lambda>x. wrap d (x - k)) xs)"
| "sub_int fl (FloatArray r c xs) k =
     FloatArray r c (map (\<lambda>x. fl (x - fl (real_of_int k))) xs)"

text \<open>
  \<^verbatim>\<open>np.right_shift(a, n)\<close> with a Python integer \<open>n\<close> (0 or 2 here): defined on
  integer arrays only, \<^verbatim>\<open>TypeError\<close> on a \<^verbatim>\<open>float64\<close> array.
\<close>

fun right_shift :: "ndarray \<Rightarrow> int \<Rightarrow> error + ndarray" where
  "right_shift (IntArray d r c xs) n = Inr (IntArray d r c (map (\<lambda>x. x div 2 ^ nat n) xs))"
| "right_shift (FloatArray r c xs) n = Inl TypeError"

text \<open>A Python float times an array: a \<^verbatim>\<open>float64\<close> array.  An integer item is
  converted to \<^verbatim>\<open>float64\<close> first; the product is a \<^verbatim>\<open>float64\<close> product.\<close>

fun mul_float :: "(real \<Rightarrow> real) \<Rightarrow> real \<Rightarrow> ndarray \<Rightarrow> ndarray" where
  "mul_float fl k (IntArray d r c xs) =
     FloatArray r c (map (\<lambda>x. fl (k * fl (real_of_int x))) xs)"
| "mul_float fl k (FloatArray r c xs) = FloatArray r c (map (\<lambda>x. fl (k * x)) xs)"

text \<open>
  The sum and the difference of two arrays, with numpy's broadcasting: the two
  extents of a dimension must be equal, or one of them 1 (that array is then repeated
  along the dimension); otherwise the operation raises \<^verbatim>\<open>ValueError\<close>.  Two integer
  arrays give an integer array of the promoted type; otherwise the operands are
  converted to \<^verbatim>\<open>float64\<close> and each sum or difference is the \<^verbatim>\<open>float64\<close> one.
\<close>

definition bdim :: "nat \<Rightarrow> nat \<Rightarrow> nat option" where
  "bdim m n = (if m = n then Some m else if m = 1 then Some n else if n = 1 then Some m else None)"

definition bidx :: "ndarray \<Rightarrow> nat \<Rightarrow> nat \<Rightarrow> nat" where
  "bidx a C k =
    (if nrows a = 1 then 0 else k div C) * ncols a + (if ncols a = 1 then 0 else k mod C)"

fun arith_op ::
  "(real \<Rightarrow> real) \<Rightarrow> (int \<Rightarrow> int \<Rightarrow> int) \<Rightarrow> (real \<Rightarrow> real \<Rightarrow> real) \<Rightarrow>
     ndarray \<Rightarrow> ndarray \<Rightarrow> nat \<Rightarrow> nat \<Rightarrow> ndarray" where
  "arith_op fl fi ff (IntArray d1 r1 c1 xs) (IntArray d2 r2 c2 ys) R C =
     IntArray (promote d1 d2) R C
       (map (\<lambda>k. wrap (promote d1 d2)
                   (fi (xs ! bidx (IntArray d1 r1 c1 xs) C k) (ys ! bidx (IntArray d2 r2 c2 ys) C k)))
            [0..<R * C])"
| "arith_op fl fi ff a b R C =
     FloatArray R C
       (map (\<lambda>k. fl (ff (fitem fl a (bidx a C k)) (fitem fl b (bidx b C k)))) [0..<R * C])"

definition broadcast_op ::
  "(real \<Rightarrow> real) \<Rightarrow> (int \<Rightarrow> int \<Rightarrow> int) \<Rightarrow> (real \<Rightarrow> real \<Rightarrow> real) \<Rightarrow>
     ndarray \<Rightarrow> ndarray \<Rightarrow> error + ndarray" where
  "broadcast_op fl fi ff a b =
    (case bdim (nrows a) (nrows b) of
       None \<Rightarrow> Inl ValueError
     | Some R \<Rightarrow>
        (case bdim (ncols a) (ncols b) of
           None \<Rightarrow> Inl ValueError
         | Some C \<Rightarrow> Inr (arith_op fl fi ff a b R C)))"

definition add_arr :: "(real \<Rightarrow> real) \<Rightarrow> ndarray \<Rightarrow> ndarray \<Rightarrow> error + ndarray" where
  "add_arr fl a b = broadcast_op fl (+) (+) a b"

definition sub_arr :: "(real \<Rightarrow> real) \<Rightarrow> ndarray \<Rightarrow> ndarray \<Rightarrow> error + ndarray" where
  "sub_arr fl a b = broadcast_op fl (-) (-) a b"

text \<open>\<^verbatim>\<open>np.clip(a, lo, hi)\<close> with Python integers: the maximum with \<open>lo\<close>, then the
  minimum with \<open>hi\<close>, item by item; the type of the array is kept.  A maximum or
  minimum is one of its operands, so nothing is rounded; the bounds of the source, 0
  and 255, are \<^verbatim>\<open>float64\<close> numbers.\<close>

fun clip :: "ndarray \<Rightarrow> int \<Rightarrow> int \<Rightarrow> ndarray" where
  "clip (IntArray d r c xs) lo hi = IntArray d r c (map (\<lambda>x. min (max x lo) hi) xs)"
| "clip (FloatArray r c xs) lo hi =
     FloatArray r c (map (\<lambda>x. min (max x (real_of_int lo)) (real_of_int hi)) xs)"

section \<open>Conversion to RGB\<close>

text \<open>
  \<^verbatim>\<open>YuvFile.to_rgb_8b\<close>.  The statements run in order and the first exception leaves
  the function.  \<^verbatim>\<open>2**7\<close> is 128 and \<^verbatim>\<open>2**8 - 1\<close> is 255.  \<open>fl\<close> is the rounding
  of \<^verbatim>\<open>float64\<close>: the constants are \<open>fl\<close> of their decimal fractions, and each product,
  sum and difference of lines 71 to 73 is rounded.
\<close>

definition to_rgb_8b ::
  "(real \<Rightarrow> real) \<Rightarrow> YuvFile \<Rightarrow> ndarray \<Rightarrow> ndarray \<Rightarrow> ndarray \<Rightarrow>
     error + (ndarray \<times> ndarray \<times> ndarray)" where
  "to_rgb_8b fl f y u v =
    (let cb = upsample_chroma f u;
         cr = upsample_chroma f v
     in case right_shift (add_int fl y (round_bias f)) (shift f) of
          Inl e \<Rightarrow> Inl e
        | Inr y8 \<Rightarrow>
     (case right_shift (add_int fl cb (round_bias f)) (shift f) of
          Inl e \<Rightarrow> Inl e
        | Inr cb8 \<Rightarrow>
     (case right_shift (add_int fl cr (round_bias f)) (shift f) of
          Inl e \<Rightarrow> Inl e
        | Inr cr8 \<Rightarrow>
     (case add_arr fl y8 (mul_float fl (fl (1402 / 1000)) (sub_int fl cr8 (2 ^ 7))) of
          Inl e \<Rightarrow> Inl e
        | Inr r0 \<Rightarrow>
     (case sub_arr fl y8 (mul_float fl (fl (344 / 1000)) (sub_int fl cb8 (2 ^ 7))) of
          Inl e \<Rightarrow> Inl e
        | Inr g0 \<Rightarrow>
     (case sub_arr fl g0 (mul_float fl (fl (714 / 1000)) (sub_int fl cr8 (2 ^ 7))) of
          Inl e \<Rightarrow> Inl e
        | Inr g1 \<Rightarrow>
     (case add_arr fl y8 (mul_float fl (fl (1772 / 1000)) (sub_int fl cb8 (2 ^ 7))) of
          Inl e \<Rightarrow> Inl e
        | Inr b0 \<Rightarrow>
            Inr (clip r0 0 (2 ^ 8 - 1), clip g1 0 (2 ^ 8 - 1), clip b0 0 (2 ^ 8 - 1)))))))))"

section \<open>The option check of the test script\<close>

text \<open>
  The values \<^verbatim>\<open>parser.parse_args()\<close> returns: the options, with the defaults of the
  source where an option is absent, and the arguments that are left over.
\<close>

record options =
  opt_input :: "string option"
  opt_output :: "string option"
  opt_width :: int
  opt_height :: int
  opt_colour :: int
  opt_depth :: int
  opt_first :: int
  opt_frames :: "int option"
  opt_plot :: "int option"

text \<open>
  \<^verbatim>\<open>parse_options\<close>, from the result of \<^verbatim>\<open>parse_args\<close> on: the checks in the order of
  the source, each ending in \<^verbatim>\<open>parser.error\<close>.  \<open>isfile\<close> is \<^verbatim>\<open>os.path.isfile\<close>.  A
  Python condition on a value is true for a non-empty string and for an integer other
  than 0.
\<close>

definition parse_options :: "(string \<Rightarrow> bool) \<Rightarrow> string list \<Rightarrow> options \<Rightarrow> error + options" where
  "parse_options isfile args opts =
    (if args \<noteq> [] then Inl (ParserError ''Unexpected arguments'')
     else if opt_input opts = None \<or> opt_input opts = Some [] then
       Inl (ParserError ''No input file name specified'')
     else if \<not> isfile (the (opt_input opts)) then
       Inl (ParserError (''Input file not found: '' @ the (opt_input opts)))
     else if opt_width opts \<le> 0 \<or> opt_height opts \<le> 0
              \<or> opt_width opts mod 2 \<noteq> 0 \<or> opt_height opts mod 2 \<noteq> 0 then
       Inl (ParserError ''Invalid width and/or height'')
     else if opt_colour opts \<notin> set [CSPACE_420, CSPACE_422] then
       Inl (ParserError ''Invalid colour space'')
     else if opt_depth opts \<notin> set [DEPTH_8, DEPTH_10] then
       Inl (ParserError ''Invalid bit depth'')
     else if opt_first opts < 0 then
       Inl (ParserError ''Invalid index for first frame'')
     else if opt_frames opts \<noteq> None \<and> the (opt_frames opts) \<le> 0 then
       Inl (ParserError ''Invalid number of frames'')
     else if opt_plot opts \<noteq> None \<and> the (opt_plot opts) \<noteq> 0 \<and> the (opt_plot opts) \<le> 0 then
       Inl (ParserError ''Invalid plot interval'')
     else Inr opts)"

text \<open>
  Rounding half up, as the specification words it for the normalisation: the integer
  nearest to \<open>x / 2 ^ s\<close>, the upper one when two are equally near.
\<close>

definition round_half_up :: "int \<Rightarrow> nat \<Rightarrow> int" where
  "round_half_up x s = \<lfloor>real_of_int x / 2 ^ s + 1 / 2\<rfloor>"

text \<open>Whether an array is of unsigned 8-bit items.\<close>

fun is_uint8 :: "ndarray \<Rightarrow> bool" where
  "is_uint8 (IntArray d r c xs) = (d = UInt8)"
| "is_uint8 (FloatArray r c xs) = False"

text \<open>The item in row \<open>i\<close> and column \<open>j\<close> of an array, as a real number.\<close>

definition item :: "ndarray \<Rightarrow> nat \<Rightarrow> nat \<Rightarrow> real" where
  "item a i j = fval a (i * ncols a + j)"

section \<open>Notions used to state the properties\<close>

text \<open>The samples of a plane are valid for the depth \<open>d\<close>: each is at least 0 and
  below \<open>2 ^ d\<close>.\<close>

definition valid_samples :: "int \<Rightarrow> int list \<Rightarrow> bool" where
  "valid_samples d xs = list_all (\<lambda>x. 0 \<le> x \<and> x < 2 ^ nat d) xs"

text \<open>The normalisation of one sample as the specification writes it:
  \<open>(sample + round_bias) >> shift\<close>.\<close>

definition norm8 :: "YuvFile \<Rightarrow> int \<Rightarrow> int" where
  "norm8 f x = (x + round_bias f) div 2 ^ nat (shift f)"

text \<open>\<open>clip(x, 0, 255)\<close> on one number.\<close>

definition clip8 :: "real \<Rightarrow> real" where
  "clip8 x = min (max x 0) 255"

text \<open>The flat position, in a chroma plane, of the sample that the upsampling puts at
  the flat position \<open>k\<close> of a plane of width \<open>W\<close>: row \<open>(k div W) div v_smpl\<close>,
  column \<open>(k mod W) div 2\<close>, in rows of \<open>W div 2\<close> items.\<close>

definition chroma_src :: "YuvFile \<Rightarrow> nat \<Rightarrow> nat \<Rightarrow> nat" where
  "chroma_src f W k = ((k div W) div nat (v_smpl f)) * (W div 2) + (k mod W) div 2"

section \<open>The constructor and the option check\<close>

text \<open>Neither \<open>colour\<close> nor \<open>depth\<close> is read after construction, except for the
  comparison of \<open>colour\<close> with 420 in the upsampling.\<close>

lemma read_frame_colour:
  "read_frame (f\<lparr>colour := c\<rparr>) = map_sum id (apfst (\<lambda>g. g\<lparr>colour := c\<rparr>)) (read_frame f)"
  unfolding read_frame_def Let_def
  by (simp split: sum.split prod.split)

lemma read_frame_depth:
  "read_frame (f\<lparr>depth := d\<rparr>) = map_sum id (apfst (\<lambda>g. g\<lparr>depth := d\<rparr>)) (read_frame f)"
  unfolding read_frame_def Let_def
  by (simp split: sum.split prod.split)

lemma write_frame_colour:
  "write_frame f64 (f\<lparr>colour := c\<rparr>) y u v =
     map_sum id (\<lambda>g. g\<lparr>colour := c\<rparr>) (write_frame f64 f y u v)"
  unfolding write_frame_def
  by (simp split: sum.split)

lemma write_frame_depth:
  "write_frame f64 (f\<lparr>depth := d\<rparr>) y u v =
     map_sum id (\<lambda>g. g\<lparr>depth := d\<rparr>) (write_frame f64 f y u v)"
  unfolding write_frame_def
  by (simp split: sum.split)

lemma to_rgb_8b_colour:
  "c \<noteq> CSPACE_420 \<Longrightarrow> colour f \<noteq> CSPACE_420 \<Longrightarrow>
     to_rgb_8b fl (f\<lparr>colour := c\<rparr>) y u v = to_rgb_8b fl f y u v"
  by (simp add: to_rgb_8b_def upsample_chroma_def cong: sum.case_cong)

lemma to_rgb_8b_depth:
  "to_rgb_8b fl (f\<lparr>depth := d\<rparr>) y u v = to_rgb_8b fl f y u v"
  by (simp add: to_rgb_8b_def upsample_chroma_def cong: sum.case_cong)

lemma YuvFile_init_fields:
  assumes "YuvFile_init nm md w h c d = Inr f"
  shows "f = \<lparr> name = nm, mode = md, width = w, height = h, colour = c, depth = d,
              handle = None, h_smpl = 2, v_smpl = (if c = CSPACE_420 then 2 else 1),
              dtype = (if d = DEPTH_10 then UInt16 else UInt8),
              round_bias = (if d = DEPTH_10 then 1 else 0),
              shift = (if d = DEPTH_10 then 2 else 0), y_shape = (h, w), y_size = h * w,
              uv_shape = (h div (if c = CSPACE_420 then 2 else 1), w div 2),
              uv_size = (h div (if c = CSPACE_420 then 2 else 1)) * (w div 2) \<rparr>"
  using assms by (simp add: YuvFile_init_def Let_def)

text \<open>
  C10.  Construction with any colour value other than 420 gives the codec of 4:2:2
  (vertical factor 1): it is the object constructed with 422 but for the stored
  \<open>colour\<close>, and upsampling, conversion, reading and writing do the same on both.
  Construction with any depth other than 10 gives the codec of depth 8 (items of one
  byte, shift 0, bias 0) in the same sense.  The other derived settings are fixed by
  width and height alone: the horizontal factor is 2, the luma shape is
  (height, width), and the chroma shape is their quotients by the two factors.
\<close>

theorem init_unsupported_values:
  assumes "YuvFile_init nm md w h c d = Inr f"
  shows "h_smpl f = 2 \<and> y_shape f = (h, w) \<and> y_size f = h * w
     \<and> uv_shape f = (h div v_smpl f, w div 2)
     \<and> uv_size f = (h div v_smpl f) * (w div 2)
     \<and> (c \<noteq> CSPACE_420 \<longrightarrow>
          v_smpl f = 1
        \<and> YuvFile_init nm md w h CSPACE_422 d = Inr (f\<lparr>colour := CSPACE_422\<rparr>)
        \<and> upsample_chroma f = upsample_chroma (f\<lparr>colour := CSPACE_422\<rparr>)
        \<and> (\<forall>fl. to_rgb_8b fl f = to_rgb_8b fl (f\<lparr>colour := CSPACE_422\<rparr>))
        \<and> (\<forall>hd. read_frame (f\<lparr>handle := hd\<rparr>) =
               map_sum id (apfst (\<lambda>g. g\<lparr>colour := c\<rparr>))
                 (read_frame (f\<lparr>colour := CSPACE_422, handle := hd\<rparr>)))
        \<and> (\<forall>f64 hd y u v. write_frame f64 (f\<lparr>handle := hd\<rparr>) y u v =
               map_sum id (\<lambda>g. g\<lparr>colour := c\<rparr>)
                 (write_frame f64 (f\<lparr>colour := CSPACE_422, handle := hd\<rparr>) y u v)))
     \<and> (d \<noteq> DEPTH_10 \<longrightarrow>
          dtype f = UInt8 \<and> itemsize (dtype f) = 1 \<and> round_bias f = 0 \<and> shift f = 0
        \<and> YuvFile_init nm md w h c DEPTH_8 = Inr (f\<lparr>depth := DEPTH_8\<rparr>)
        \<and> upsample_chroma f = upsample_chroma (f\<lparr>depth := DEPTH_8\<rparr>)
        \<and> (\<forall>fl. to_rgb_8b fl f = to_rgb_8b fl (f\<lparr>depth := DEPTH_8\<rparr>))
        \<and> (\<forall>hd. read_frame (f\<lparr>handle := hd\<rparr>) =
               map_sum id (apfst (\<lambda>g. g\<lparr>depth := d\<rparr>))
                 (read_frame (f\<lparr>depth := DEPTH_8, handle := hd\<rparr>)))
        \<and> (\<forall>f64 hd y u v. write_frame f64 (f\<lparr>handle := hd\<rparr>) y u v =
               map_sum id (\<lambda>g. g\<lparr>depth := d\<rparr>)
                 (write_frame f64 (f\<lparr>depth := DEPTH_8, handle := hd\<rparr>) y u v)))"
proof -
  note f = YuvFile_init_fields [OF assms]
  have geo: "h_smpl f = 2 \<and> y_shape f = (h, w) \<and> y_size f = h * w
     \<and> uv_shape f = (h div v_smpl f, w div 2)
     \<and> uv_size f = (h div v_smpl f) * (w div 2)"
    by (simp add: f)
  have col: "v_smpl f = 1
        \<and> YuvFile_init nm md w h CSPACE_422 d = Inr (f\<lparr>colour := CSPACE_422\<rparr>)
        \<and> upsample_chroma f = upsample_chroma (f\<lparr>colour := CSPACE_422\<rparr>)
        \<and> (\<forall>fl. to_rgb_8b fl f = to_rgb_8b fl (f\<lparr>colour := CSPACE_422\<rparr>))
        \<and> (\<forall>hd. read_frame (f\<lparr>handle := hd\<rparr>) =
               map_sum id (apfst (\<lambda>g. g\<lparr>colour := c\<rparr>))
                 (read_frame (f\<lparr>colour := CSPACE_422, handle := hd\<rparr>)))
        \<and> (\<forall>f64 hd y u v. write_frame f64 (f\<lparr>handle := hd\<rparr>) y u v =
               map_sum id (\<lambda>g. g\<lparr>colour := c\<rparr>)
                 (write_frame f64 (f\<lparr>colour := CSPACE_422, handle := hd\<rparr>) y u v))"
    if c: "c \<noteq> CSPACE_420"
  proof -
    have c0: "colour f = c" by (simp add: f)
    have 1: "v_smpl f = 1" using c by (simp add: f)
    have 2: "YuvFile_init nm md w h CSPACE_422 d = Inr (f\<lparr>colour := CSPACE_422\<rparr>)"
      using c by (simp add: f YuvFile_init_def Let_def CSPACE_420_def CSPACE_422_def)
    have 3: "upsample_chroma f = upsample_chroma (f\<lparr>colour := CSPACE_422\<rparr>)"
      using c c0 by (auto simp add: fun_eq_iff upsample_chroma_def CSPACE_420_def CSPACE_422_def)
    have 4: "to_rgb_8b fl f = to_rgb_8b fl (f\<lparr>colour := CSPACE_422\<rparr>)" for fl
      using c c0 to_rgb_8b_colour [of CSPACE_422 f fl]
      by (simp add: fun_eq_iff CSPACE_420_def CSPACE_422_def)
    have g: "f\<lparr>handle := hd\<rparr> = (f\<lparr>colour := CSPACE_422, handle := hd\<rparr>)\<lparr>colour := c\<rparr>" for hd
      using c0 by simp
    have 5: "read_frame (f\<lparr>handle := hd\<rparr>) =
               map_sum id (apfst (\<lambda>g. g\<lparr>colour := c\<rparr>))
                 (read_frame (f\<lparr>colour := CSPACE_422, handle := hd\<rparr>))" for hd
      by (subst g) (rule read_frame_colour)
    have 6: "write_frame f64 (f\<lparr>handle := hd\<rparr>) y u v =
               map_sum id (\<lambda>g. g\<lparr>colour := c\<rparr>)
                 (write_frame f64 (f\<lparr>colour := CSPACE_422, handle := hd\<rparr>) y u v)"
      for f64 hd y u v
      by (subst g) (rule write_frame_colour)
    show ?thesis using 1 2 3 4 5 6 by blast
  qed
  have dep: "dtype f = UInt8 \<and> itemsize (dtype f) = 1 \<and> round_bias f = 0 \<and> shift f = 0
        \<and> YuvFile_init nm md w h c DEPTH_8 = Inr (f\<lparr>depth := DEPTH_8\<rparr>)
        \<and> upsample_chroma f = upsample_chroma (f\<lparr>depth := DEPTH_8\<rparr>)
        \<and> (\<forall>fl. to_rgb_8b fl f = to_rgb_8b fl (f\<lparr>depth := DEPTH_8\<rparr>))
        \<and> (\<forall>hd. read_frame (f\<lparr>handle := hd\<rparr>) =
               map_sum id (apfst (\<lambda>g. g\<lparr>depth := d\<rparr>))
                 (read_frame (f\<lparr>depth := DEPTH_8, handle := hd\<rparr>)))
        \<and> (\<forall>f64 hd y u v. write_frame f64 (f\<lparr>handle := hd\<rparr>) y u v =
               map_sum id (\<lambda>g. g\<lparr>depth := d\<rparr>)
                 (write_frame f64 (f\<lparr>depth := DEPTH_8, handle := hd\<rparr>) y u v))"
    if d: "d \<noteq> DEPTH_10"
  proof -
    have d0: "depth f = d" by (simp add: f)
    have 1: "dtype f = UInt8 \<and> itemsize (dtype f) = 1 \<and> round_bias f = 0 \<and> shift f = 0"
      using d by (simp add: f)
    have 2: "YuvFile_init nm md w h c DEPTH_8 = Inr (f\<lparr>depth := DEPTH_8\<rparr>)"
      using d by (simp add: f YuvFile_init_def Let_def DEPTH_8_def DEPTH_10_def)
    have 3: "upsample_chroma f = upsample_chroma (f\<lparr>depth := DEPTH_8\<rparr>)"
      by (simp add: fun_eq_iff upsample_chroma_def)
    have 4: "to_rgb_8b fl f = to_rgb_8b fl (f\<lparr>depth := DEPTH_8\<rparr>)" for fl
      by (simp add: fun_eq_iff to_rgb_8b_depth)
    have g: "f\<lparr>handle := hd\<rparr> = (f\<lparr>depth := DEPTH_8, handle := hd\<rparr>)\<lparr>depth := d\<rparr>" for hd
      using d0 by simp
    have 5: "read_frame (f\<lparr>handle := hd\<rparr>) =
               map_sum id (apfst (\<lambda>g. g\<lparr>depth := d\<rparr>))
                 (read_frame (f\<lparr>depth := DEPTH_8, handle := hd\<rparr>))" for hd
      by (subst g) (rule read_frame_depth)
    have 6: "write_frame f64 (f\<lparr>handle := hd\<rparr>) y u v =
               map_sum id (\<lambda>g. g\<lparr>depth := d\<rparr>)
                 (write_frame f64 (f\<lparr>depth := DEPTH_8, handle := hd\<rparr>) y u v)"
      for f64 hd y u v
      by (subst g) (rule write_frame_depth)
    show ?thesis using 1 2 3 4 5 6 by blast
  qed
  show ?thesis using geo col dep by blast
qed

theorem init_unsupported_values_witness:
  "YuvFile_init ''in.yuv'' ''r'' 4 2 444 12 =
     Inr \<lparr> name = ''in.yuv'', mode = ''r'', width = 4, height = 2, colour = 444, depth = 12,
           handle = None, h_smpl = 2, v_smpl = 1, dtype = UInt8, round_bias = 0, shift = 0,
           y_shape = (2, 4), y_size = 8, uv_shape = (2, 2), uv_size = 4 \<rparr>
   \<and> 444 \<noteq> CSPACE_420 \<and> 12 \<noteq> DEPTH_10
   \<and> YuvFile_init ''in.yuv'' ''r'' 4 2 CSPACE_422 12 =
     Inr \<lparr> name = ''in.yuv'', mode = ''r'', width = 4, height = 2, colour = 422, depth = 12,
           handle = None, h_smpl = 2, v_smpl = 1, dtype = UInt8, round_bias = 0, shift = 0,
           y_shape = (2, 4), y_size = 8, uv_shape = (2, 2), uv_size = 4 \<rparr>
   \<and> YuvFile_init ''in.yuv'' ''r'' 4 2 444 DEPTH_8 =
     Inr \<lparr> name = ''in.yuv'', mode = ''r'', width = 4, height = 2, colour = 444, depth = 8,
           handle = None, h_smpl = 2, v_smpl = 1, dtype = UInt8, round_bias = 0, shift = 0,
           y_shape = (2, 4), y_size = 8, uv_shape = (2, 2), uv_size = 4 \<rparr>"
proof -
  have h: "YuvFile_init ''in.yuv'' ''r'' 4 2 444 12 =
     Inr \<lparr> name = ''in.yuv'', mode = ''r'', width = 4, height = 2, colour = 444, depth = 12,
           handle = None, h_smpl = 2, v_smpl = 1, dtype = UInt8, round_bias = 0, shift = 0,
           y_shape = (2, 4), y_size = 8, uv_shape = (2, 2), uv_size = 4 \<rparr>"
    by (simp add: YuvFile_init_def CSPACE_420_def DEPTH_10_def)
  have c: "(444::int) \<noteq> CSPACE_420" and d: "(12::int) \<noteq> DEPTH_10"
    by (simp_all add: CSPACE_420_def DEPTH_10_def)
  from init_unsupported_values [OF h] c d show ?thesis
    by (simp add: h CSPACE_422_def DEPTH_8_def)
qed

text \<open>
  C6, as the code has it.  The constructor checks nothing and never fails, whatever
  the width and the height.  The check of the geometry is in \<open>parse_options\<close>: when
  the checks before it pass (no argument left over, an input name, which is a file), a
  width or height that is not positive or is odd ends it with the error
  "Invalid width and/or height".
\<close>

theorem geometry_checked_by_parse_options:
  assumes "args = []" and "opt_input opts = Some p" and "p \<noteq> []" and "isfile p"
    and "opt_width opts \<le> 0 \<or> opt_height opts \<le> 0 \<or> odd (opt_width opts) \<or> odd (opt_height opts)"
  shows "parse_options isfile args opts = Inl (ParserError ''Invalid width and/or height'')
       \<and> \<not> isl (YuvFile_init nm md (opt_width opts) (opt_height opts) c d)"
  using assms by (auto simp add: parse_options_def YuvFile_init_def Let_def odd_iff_mod_2_eq_one)

theorem geometry_checked_by_parse_options_witness:
  "parse_options (\<lambda>p. True) []
     \<lparr> opt_input = Some ''in.yuv'', opt_output = None, opt_width = 3, opt_height = 2,
       opt_colour = 420, opt_depth = 8, opt_first = 0, opt_frames = None, opt_plot = None \<rparr>
     = Inl (ParserError ''Invalid width and/or height'')
   \<and> \<not> isl (YuvFile_init ''in.yuv'' ''r'' 3 2 420 8)"
  using geometry_checked_by_parse_options [of "[]"
     "\<lparr> opt_input = Some ''in.yuv'', opt_output = None, opt_width = 3, opt_height = 2,
       opt_colour = 420, opt_depth = 8, opt_first = 0, opt_frames = None, opt_plot = None \<rparr>"
     "''in.yuv''" "\<lambda>p. True" "''in.yuv''" "''r''" 420 8]
  by simp

text \<open>The claim C6 as the specification states it fails: the constructor accepts the
  width 3 and makes a codec whose chroma planes are one item wide.\<close>

theorem init_accepts_odd_width:
  "YuvFile_init ''in.yuv'' ''r'' 3 2 CSPACE_420 DEPTH_8 =
     Inr \<lparr> name = ''in.yuv'', mode = ''r'', width = 3, height = 2, colour = 420, depth = 8,
           handle = None, h_smpl = 2, v_smpl = 2, dtype = UInt8, round_bias = 0, shift = 0,
           y_shape = (2, 3), y_size = 6, uv_shape = (1, 1), uv_size = 1 \<rparr>"
  by (simp add: YuvFile_init_def CSPACE_420_def DEPTH_8_def DEPTH_10_def)

text \<open>
  C7, as the code has it.  The constructor never fails, whatever the colour and the
  depth.  The two checks are in \<open>parse_options\<close>: when the checks before them pass, a
  colour other than 420 and 422 ends it with "Invalid colour space", and with a
  supported colour a depth other than 8 and 10 ends it with "Invalid bit depth".
\<close>

theorem colour_depth_checked_by_parse_options:
  assumes "args = []" and "opt_input opts = Some p" and "p \<noteq> []" and "isfile p"
    and "0 < opt_width opts" and "0 < opt_height opts"
    and "even (opt_width opts)" and "even (opt_height opts)"
  shows "(opt_colour opts \<notin> {CSPACE_420, CSPACE_422} \<longrightarrow>
            parse_options isfile args opts = Inl (ParserError ''Invalid colour space''))
       \<and> (opt_colour opts \<in> {CSPACE_420, CSPACE_422} \<and> opt_depth opts \<notin> {DEPTH_8, DEPTH_10} \<longrightarrow>
            parse_options isfile args opts = Inl (ParserError ''Invalid bit depth''))
       \<and> \<not> isl (YuvFile_init nm md w h (opt_colour opts) (opt_depth opts))"
  using assms by (auto simp add: parse_options_def YuvFile_init_def Let_def)

theorem colour_depth_checked_by_parse_options_witness:
  "parse_options (\<lambda>p. True) []
     \<lparr> opt_input = Some ''in.yuv'', opt_output = None, opt_width = 4, opt_height = 2,
       opt_colour = 444, opt_depth = 8, opt_first = 0, opt_frames = None, opt_plot = None \<rparr>
     = Inl (ParserError ''Invalid colour space'')
   \<and> parse_options (\<lambda>p. True) []
     \<lparr> opt_input = Some ''in.yuv'', opt_output = None, opt_width = 4, opt_height = 2,
       opt_colour = 422, opt_depth = 12, opt_first = 0, opt_frames = None, opt_plot = None \<rparr>
     = Inl (ParserError ''Invalid bit depth'')"
  using colour_depth_checked_by_parse_options [of "[]"
     "\<lparr> opt_input = Some ''in.yuv'', opt_output = None, opt_width = 4, opt_height = 2,
       opt_colour = 444, opt_depth = 8, opt_first = 0, opt_frames = None, opt_plot = None \<rparr>"
     "''in.yuv''" "\<lambda>p. True" "''in.yuv''" "''r''" 4 2]
    colour_depth_checked_by_parse_options [of "[]"
     "\<lparr> opt_input = Some ''in.yuv'', opt_output = None, opt_width = 4, opt_height = 2,
       opt_colour = 422, opt_depth = 12, opt_first = 0, opt_frames = None, opt_plot = None \<rparr>"
     "''in.yuv''" "\<lambda>p. True" "''in.yuv''" "''r''" 4 2]
  by (simp add: CSPACE_420_def CSPACE_422_def DEPTH_8_def DEPTH_10_def)

text \<open>The claim C7 as the specification states it fails: the constructor accepts the
  colour 444 and the depth 12 and makes the codec of 4:2:2 and 8 bits.\<close>

theorem init_accepts_unsupported_colour_depth:
  "YuvFile_init ''in.yuv'' ''r'' 4 2 444 12 =
     Inr \<lparr> name = ''in.yuv'', mode = ''r'', width = 4, height = 2, colour = 444, depth = 12,
           handle = None, h_smpl = 2, v_smpl = 1, dtype = UInt8, round_bias = 0, shift = 0,
           y_shape = (2, 4), y_size = 8, uv_shape = (2, 2), uv_size = 4 \<rparr>"
  by (simp add: YuvFile_init_def CSPACE_420_def DEPTH_10_def)

section \<open>Reading and writing: the byte level\<close>

lemma itemsize_pos: "0 < itemsize d"
  by (cases d) simp_all

lemma length_le_bytes: "length (le_bytes n x) = n"
  by (induction n arbitrary: x) simp_all

lemma length_encode: "length (encode d x) = itemsize d"
  by (simp add: encode_def length_le_bytes)

lemma le_val_le_bytes: "le_val (le_bytes n x) = x mod 256 ^ n"
proof (induction n arbitrary: x)
  case 0
  show ?case by simp
next
  case (Suc n)
  have "le_val (le_bytes (Suc n) x) = x mod 256 + 256 * ((x div 256) mod 256 ^ n)"
    by (simp add: Suc uint_word_of_int take_bit_eq_mod)
  also have "\<dots> = x mod (256 * 256 ^ n)"
    by (simp add: zmod_zmult2_eq)
  finally show ?case by simp
qed

lemma wrap_in_range: "in_range d x \<Longrightarrow> wrap d x = x"
proof (cases d)
  case Int64
  assume "in_range d x"
  then have "0 \<le> x + 2 ^ 63" and "x + 2 ^ 63 < 2 ^ 64"
    using Int64 by simp_all
  then have "(x + 2 ^ 63) mod 2 ^ 64 = x + 2 ^ 63"
    by (rule mod_pos_pos_trivial)
  then show ?thesis using Int64 by simp
qed simp_all

lemma decode_encode: "in_range d x \<Longrightarrow> decode d (encode d x) = x"
proof -
  assume r: "in_range d x"
  have e: "decode d (encode d x) = wrap d (x mod 256 ^ itemsize d)"
    by (simp only: decode_def encode_def le_val_le_bytes)
  show ?thesis
  proof (cases d)
    case UInt8
    then show ?thesis using r e by simp
  next
    case UInt16
    then show ?thesis using r e by simp
  next
    case Int64
    have "((x mod 2 ^ 64) + 2 ^ 63) mod 2 ^ 64 = (x + 2 ^ 63) mod 2 ^ 64"
      by (simp add: mod_add_left_eq)
    moreover have "wrap Int64 x = x" using r Int64 wrap_in_range by simp
    ultimately show ?thesis using Int64 e by simp
  qed
qed

lemma length_items_of: "length (items_of d n bs) = n"
  by (simp add: items_of_def)

lemma items_of_Suc:
  "items_of d (Suc n) bs = decode d (take (itemsize d) bs) # items_of d n (drop (itemsize d) bs)"
proof -
  have "[0..<Suc n] = 0 # map Suc [0..<n]"
    by (simp add: upt_conv_Cons map_Suc_upt del: upt_Suc)
  then show ?thesis
    by (simp add: items_of_def comp_def add.commute del: upt_Suc)
qed

lemma items_of_encoded:
  "list_all (in_range d) xs \<Longrightarrow>
     items_of d (length xs) (concat (map (encode d) xs) @ rest) = xs"
proof (induction xs)
  case Nil
  show ?case by (simp add: items_of_def)
next
  case (Cons x xs)
  then show ?case
    by (simp add: items_of_Suc length_encode decode_encode)
qed

lemma length_concat_encode:
  "length (concat (map (encode d) xs)) = length xs * itemsize d"
  by (induction xs) (simp_all add: length_encode)

lemma fromfile_Reader:
  "fromfile (Some (Reader bs)) d count =
     Inr (Some (Reader (if count < 0 \<or> nat count \<le> length bs div itemsize d
                        then drop ((if count < 0 then length bs div itemsize d
                                    else min (nat count) (length bs div itemsize d)) * itemsize d) bs
                        else [])),
          items_of d (if count < 0 then length bs div itemsize d
                      else min (nat count) (length bs div itemsize d)) bs)"
  by (simp add: fromfile_def Let_def)

lemma fromfile_exact:
  assumes "0 \<le> count" and "nat count * itemsize d \<le> length bs"
  shows "fromfile (Some (Reader bs)) d count =
     Inr (Some (Reader (drop (nat count * itemsize d) bs)), items_of d (nat count) bs)"
proof -
  have "nat count \<le> length bs div itemsize d"
    using assms(2) itemsize_pos [of d] by (simp add: less_eq_div_iff_mult_less_eq)
  then show ?thesis using assms(1)
    by (simp add: fromfile_Reader min_def)
qed

lemma fromfile_short:
  assumes "0 \<le> count" and "length bs < nat count * itemsize d"
  shows "fromfile (Some (Reader bs)) d count =
     Inr (Some (Reader []), items_of d (length bs div itemsize d) bs)
     \<and> length bs div itemsize d < nat count"
proof -
  have "length bs div itemsize d < nat count"
    using assms(2) itemsize_pos [of d] by (simp add: div_less_iff_less_mult)
  then show ?thesis using assms(1)
    by (simp add: fromfile_Reader min_def)
qed

lemma reshape_nonneg:
  "0 \<le> r \<Longrightarrow> 0 \<le> c \<Longrightarrow>
     reshape d xs (r, c) =
       (if r * c = int (length xs) then Inr (IntArray d (nat r) (nat c) xs) else Inl ValueError)"
  by (simp add: reshape_def)


lemma init_shapes:
  assumes "YuvFile_init nm md w h c d = Inr f0"
  shows "y_shape f0 = (h, w)" and "y_size f0 = h * w"
    and "uv_shape f0 = (h div v_smpl f0, w div 2)"
    and "uv_size f0 = (h div v_smpl f0) * (w div 2)"
    and "v_smpl f0 = 1 \<or> v_smpl f0 = 2"
    and "dtype f0 = UInt8 \<or> dtype f0 = UInt16"
  using assms by (auto simp add: YuvFile_init_def Let_def)

lemma chroma_dims_nonneg:
  assumes "v = 1 \<or> v = (2::int)" and "0 \<le> (w::int)" and "0 \<le> h"
  shows "0 \<le> h div v" and "0 \<le> w div 2"
  using assms by (auto simp add: pos_imp_zdiv_nonneg_iff)

lemma read_frame_steps:
  assumes init: "YuvFile_init nm md w h c d = Inr f0" and w: "0 \<le> w" and h: "0 \<le> h"
    and r1: "fromfile h0 (dtype f0) (y_size f0) = Inr (h1, ys)"
    and r2: "fromfile h1 (dtype f0) (uv_size f0) = Inr (h2, us)"
    and r3: "fromfile h2 (dtype f0) (uv_size f0) = Inr (h3, vs)"
  shows "read_frame (f0\<lparr>handle := h0\<rparr>) =
    (if int (length ys) \<noteq> y_size f0 then
       Inr (f0\<lparr>handle := h1\<rparr>, np_empty_0_0, np_empty_0_0, np_empty_0_0)
     else if int (length us) \<noteq> uv_size f0 then
       Inr (f0\<lparr>handle := h2\<rparr>, np_empty_0_0, np_empty_0_0, np_empty_0_0)
     else if int (length vs) \<noteq> uv_size f0 then
       Inr (f0\<lparr>handle := h3\<rparr>, np_empty_0_0, np_empty_0_0, np_empty_0_0)
     else Inr (f0\<lparr>handle := h3\<rparr>,
               IntArray (dtype f0) (nat h) (nat w) ys,
               IntArray (dtype f0) (nat (h div v_smpl f0)) (nat (w div 2)) us,
               IntArray (dtype f0) (nat (h div v_smpl f0)) (nat (w div 2)) vs))"
proof -
  note s = init_shapes [OF init]
  note n = chroma_dims_nonneg [OF s(5) w h]
  have y: "reshape (dtype f0) ys (y_shape f0) =
      (if int (length ys) = y_size f0 then Inr (IntArray (dtype f0) (nat h) (nat w) ys)
       else Inl ValueError)"
    using w h by (simp add: s(1,2) reshape_nonneg)
  have uv: "reshape (dtype f0) xs (uv_shape f0) =
      (if int (length xs) = uv_size f0
       then Inr (IntArray (dtype f0) (nat (h div v_smpl f0)) (nat (w div 2)) xs)
       else Inl ValueError)" for xs
    using n by (simp add: s(3,4) reshape_nonneg)
  show ?thesis
    unfolding read_frame_def Let_def
    by (simp add: r1 r2 r3 y uv)
qed


lemma fromfile_Reader_ex:
  "\<exists>rest xs. fromfile (Some (Reader bs)) d count = Inr (Some (Reader rest), xs)"
  by (simp add: fromfile_Reader)

lemma read_frame_bytes:
  assumes init: "YuvFile_init nm md w h c d = Inr f0" and w: "0 \<le> w" and h: "0 \<le> h"
    and sz: "sz = itemsize (dtype f0)" and ny: "ny = nat (y_size f0)"
    and nuv: "nuv = nat (uv_size f0)"
  shows "read_frame (f0\<lparr>handle := Some (Reader bs)\<rparr>) =
    (if (ny + 2 * nuv) * sz \<le> length bs then
       Inr (f0\<lparr>handle := Some (Reader (drop ((ny + 2 * nuv) * sz) bs))\<rparr>,
            IntArray (dtype f0) (nat h) (nat w) (items_of (dtype f0) ny bs),
            IntArray (dtype f0) (nat (h div v_smpl f0)) (nat (w div 2))
              (items_of (dtype f0) nuv (drop (ny * sz) bs)),
            IntArray (dtype f0) (nat (h div v_smpl f0)) (nat (w div 2))
              (items_of (dtype f0) nuv (drop ((ny + nuv) * sz) bs)))
     else Inr (f0\<lparr>handle := Some (Reader [])\<rparr>, np_empty_0_0, np_empty_0_0, np_empty_0_0))"
proof -
  note s = init_shapes [OF init]
  note n = chroma_dims_nonneg [OF s(5) w h]
  have y0: "0 \<le> y_size f0" using w h by (simp add: s(2))
  have uv0: "0 \<le> uv_size f0" using n by (simp add: s(4))
  have leny: "int k = y_size f0 \<longleftrightarrow> k = ny" for k using y0 ny by auto
  have lenuv: "int k = uv_size f0 \<longleftrightarrow> k = nuv" for k using uv0 nuv by auto
  let ?dt = "dtype f0"
  let ?b1 = "drop (ny * sz) bs"
  let ?b2 = "drop (nuv * sz) ?b1"
  show ?thesis
  proof (cases "ny * sz \<le> length bs")
    case False
    then have short: "length bs < nat (y_size f0) * itemsize ?dt" using sz ny by simp
    note r1 = fromfile_short [OF y0 short]
    obtain h2 us where r2: "fromfile (Some (Reader [])) ?dt (uv_size f0) = Inr (h2, us)"
      using fromfile_Reader_ex [of "[]" ?dt "uv_size f0"] by blast
    obtain rest where h2: "h2 = Some (Reader rest)"
      using r2 fromfile_Reader_ex [of "[]" ?dt "uv_size f0"] by auto
    obtain h3 vs where r3: "fromfile h2 ?dt (uv_size f0) = Inr (h3, vs)"
      using fromfile_Reader_ex [of rest ?dt "uv_size f0"] h2 by blast
    have "length (items_of ?dt (length bs div itemsize ?dt) bs) \<noteq> ny"
      using r1 ny by (simp add: length_items_of)
    moreover have "\<not> (ny + 2 * nuv) * sz \<le> length bs"
      using False by (simp add: algebra_simps)
    ultimately show ?thesis
      using read_frame_steps [OF init w h conjunct1 [OF r1] r2 r3]
      by (simp add: leny)
  next
    case y_ok: True
    then have ex1: "nat (y_size f0) * itemsize ?dt \<le> length bs" using sz ny by simp
    have r1: "fromfile (Some (Reader bs)) ?dt (y_size f0) = Inr (Some (Reader ?b1), items_of ?dt ny bs)"
      using fromfile_exact [OF y0 ex1] sz ny by simp
    show ?thesis
    proof (cases "nuv * sz \<le> length ?b1")
      case False
      then have short: "length ?b1 < nat (uv_size f0) * itemsize ?dt" using sz nuv by simp
      note r2 = fromfile_short [OF uv0 short]
      obtain h3 vs where r3: "fromfile (Some (Reader [])) ?dt (uv_size f0) = Inr (h3, vs)"
        using fromfile_Reader_ex [of "[]" ?dt "uv_size f0"] by blast
      have ne: "length (items_of ?dt (length ?b1 div itemsize ?dt) ?b1) \<noteq> nuv"
        using r2 nuv by (simp add: length_items_of)
      have tot: "\<not> (ny + 2 * nuv) * sz \<le> length bs"
        using False by (simp add: algebra_simps)
      show ?thesis
        using tot ne read_frame_steps [OF init w h r1 conjunct1 [OF r2] r3]
        by (simp add: leny lenuv length_items_of)
    next
      case u_ok: True
      then have ex2: "nat (uv_size f0) * itemsize ?dt \<le> length ?b1" using sz nuv by simp
      have r2: "fromfile (Some (Reader ?b1)) ?dt (uv_size f0) =
          Inr (Some (Reader ?b2), items_of ?dt nuv ?b1)"
        using fromfile_exact [OF uv0 ex2] sz nuv by simp
      show ?thesis
      proof (cases "nuv * sz \<le> length ?b2")
        case False
        then have short: "length ?b2 < nat (uv_size f0) * itemsize ?dt" using sz nuv by simp
        note r3 = fromfile_short [OF uv0 short]
        have ne: "length (items_of ?dt (length ?b2 div itemsize ?dt) ?b2) \<noteq> nuv"
          using r3 nuv by (simp add: length_items_of)
        have tot: "\<not> (ny + 2 * nuv) * sz \<le> length bs"
          using False by (simp add: algebra_simps)
        show ?thesis
          using tot ne read_frame_steps [OF init w h r1 r2 conjunct1 [OF r3]]
          by (simp add: leny lenuv length_items_of)
      next
        case v_ok: True
        then have ex3: "nat (uv_size f0) * itemsize ?dt \<le> length ?b2" using sz nuv by simp
        have r3: "fromfile (Some (Reader ?b2)) ?dt (uv_size f0) =
            Inr (Some (Reader (drop (nuv * sz) ?b2)), items_of ?dt nuv ?b2)"
          using fromfile_exact [OF uv0 ex3] sz nuv by simp
        have tot: "(ny + 2 * nuv) * sz \<le> length bs"
          using y_ok u_ok v_ok by (simp add: algebra_simps)
        have d2: "?b2 = drop ((ny + nuv) * sz) bs"
          by (simp add: algebra_simps)
        have "nuv * sz + (ny + nuv) * sz = (ny + 2 * nuv) * sz"
          by (simp add: algebra_simps)
        then have d3: "drop (nuv * sz) (drop ((ny + nuv) * sz) bs) = drop ((ny + 2 * nuv) * sz) bs"
          by (simp only: drop_drop)
        show ?thesis
          using tot read_frame_steps [OF init w h r1 r2 r3]
          by (simp add: leny lenuv length_items_of d2 d3 del: drop_drop)
      qed
    qed
  qed
qed



text \<open>
  C2.  On an open input stream of a codec with positive width and height, let the
  three reads of \<open>read_frame\<close> (luma size, chroma size, chroma size, each from where
  the one before stopped) obtain the item lists \<open>ys\<close>, \<open>us\<close>, \<open>vs\<close>.  If each has
  exactly the count asked for, \<open>read_frame\<close> returns the frame: the three lists in
  the luma and chroma shapes.  If any is short, \<open>read_frame\<close> returns the triple of
  empty arrays and no error.  In particular a stream with fewer bytes left than a
  full frame gives the triple of empty arrays.
\<close>

theorem read_frame_frame_iff_exact_reads:
  assumes init: "YuvFile_init nm md w h c d = Inr f0" and w: "0 < w" and h: "0 < h"
    and r1: "fromfile (Some (Reader bs)) (dtype f0) (y_size f0) = Inr (h1, ys)"
    and r2: "fromfile h1 (dtype f0) (uv_size f0) = Inr (h2, us)"
    and r3: "fromfile h2 (dtype f0) (uv_size f0) = Inr (h3, vs)"
  shows "(int (length ys) = y_size f0 \<and> int (length us) = uv_size f0
            \<and> int (length vs) = uv_size f0 \<longrightarrow>
          read_frame (f0\<lparr>handle := Some (Reader bs)\<rparr>) =
            Inr (f0\<lparr>handle := h3\<rparr>,
                 IntArray (dtype f0) (nat h) (nat w) ys,
                 IntArray (dtype f0) (nat (h div v_smpl f0)) (nat (w div 2)) us,
                 IntArray (dtype f0) (nat (h div v_smpl f0)) (nat (w div 2)) vs))
       \<and> (\<not> (int (length ys) = y_size f0 \<and> int (length us) = uv_size f0
               \<and> int (length vs) = uv_size f0) \<longrightarrow>
          (\<exists>g. read_frame (f0\<lparr>handle := Some (Reader bs)\<rparr>) =
                 Inr (g, np_empty_0_0, np_empty_0_0, np_empty_0_0)))
       \<and> (length bs < (nat (y_size f0) + 2 * nat (uv_size f0)) * itemsize (dtype f0) \<longrightarrow>
          read_frame (f0\<lparr>handle := Some (Reader bs)\<rparr>) =
            Inr (f0\<lparr>handle := Some (Reader [])\<rparr>, np_empty_0_0, np_empty_0_0, np_empty_0_0))"
proof -
  have w0: "0 \<le> w" and h0: "0 \<le> h" using w h by simp_all
  note st = read_frame_steps [OF init w0 h0 r1 r2 r3]
  have a: "int (length ys) = y_size f0 \<and> int (length us) = uv_size f0
            \<and> int (length vs) = uv_size f0 \<longrightarrow>
          read_frame (f0\<lparr>handle := Some (Reader bs)\<rparr>) =
            Inr (f0\<lparr>handle := h3\<rparr>,
                 IntArray (dtype f0) (nat h) (nat w) ys,
                 IntArray (dtype f0) (nat (h div v_smpl f0)) (nat (w div 2)) us,
                 IntArray (dtype f0) (nat (h div v_smpl f0)) (nat (w div 2)) vs)"
    using st by simp
  have b: "\<not> (int (length ys) = y_size f0 \<and> int (length us) = uv_size f0
               \<and> int (length vs) = uv_size f0) \<longrightarrow>
          (\<exists>g. read_frame (f0\<lparr>handle := Some (Reader bs)\<rparr>) =
                 Inr (g, np_empty_0_0, np_empty_0_0, np_empty_0_0))"
    using st by auto
  have c: "length bs < (nat (y_size f0) + 2 * nat (uv_size f0)) * itemsize (dtype f0) \<longrightarrow>
          read_frame (f0\<lparr>handle := Some (Reader bs)\<rparr>) =
            Inr (f0\<lparr>handle := Some (Reader [])\<rparr>, np_empty_0_0, np_empty_0_0, np_empty_0_0)"
    using read_frame_bytes [OF init w0 h0 refl refl refl, of bs] by simp
  show ?thesis using a b c by blast
qed

theorem read_frame_frame_iff_exact_reads_witness:
  "read_frame
     (\<lparr> name = ''in.yuv'', mode = ''r'', width = 4, height = 2, colour = 420, depth = 8,
         handle = None, h_smpl = 2, v_smpl = 2, dtype = UInt8, round_bias = 0, shift = 0,
         y_shape = (2, 4), y_size = 8, uv_shape = (1, 2), uv_size = 2 \<rparr>
       \<lparr>handle := Some (Reader [16, 16, 16, 16, 16, 16, 16, 16, 128, 128, 128, 128, 1, 2, 3])\<rparr>)
   = Inr (\<lparr> name = ''in.yuv'', mode = ''r'', width = 4, height = 2, colour = 420, depth = 8,
         handle = None, h_smpl = 2, v_smpl = 2, dtype = UInt8, round_bias = 0, shift = 0,
         y_shape = (2, 4), y_size = 8, uv_shape = (1, 2), uv_size = 2 \<rparr>
          \<lparr>handle := Some (Reader [1, 2, 3])\<rparr>,
          IntArray UInt8 2 4 [16, 16, 16, 16, 16, 16, 16, 16],
          IntArray UInt8 1 2 [128, 128], IntArray UInt8 1 2 [128, 128])
   \<and> read_frame
     (\<lparr> name = ''in.yuv'', mode = ''r'', width = 4, height = 2, colour = 420, depth = 8,
         handle = None, h_smpl = 2, v_smpl = 2, dtype = UInt8, round_bias = 0, shift = 0,
         y_shape = (2, 4), y_size = 8, uv_shape = (1, 2), uv_size = 2 \<rparr>
       \<lparr>handle := Some (Reader [1, 2, 3])\<rparr>)
   = Inr (\<lparr> name = ''in.yuv'', mode = ''r'', width = 4, height = 2, colour = 420, depth = 8,
         handle = None, h_smpl = 2, v_smpl = 2, dtype = UInt8, round_bias = 0, shift = 0,
         y_shape = (2, 4), y_size = 8, uv_shape = (1, 2), uv_size = 2 \<rparr>
          \<lparr>handle := Some (Reader [])\<rparr>,
          np_empty_0_0, np_empty_0_0, np_empty_0_0)"
proof -
  let ?F = "\<lparr> name = ''in.yuv'', mode = ''r'', width = 4, height = 2, colour = 420, depth = 8,
         handle = None, h_smpl = 2, v_smpl = 2, dtype = UInt8, round_bias = 0, shift = 0,
         y_shape = (2, 4), y_size = 8, uv_shape = (1, 2), uv_size = 2 \<rparr>"
  have init: "YuvFile_init ''in.yuv'' ''r'' 4 2 420 8 = Inr ?F"
    by (simp add: YuvFile_init_def CSPACE_420_def DEPTH_10_def)
  have w: "(0::int) < 4" and h: "(0::int) < 2" by simp_all
  have a1: "fromfile (Some (Reader [16, 16, 16, 16, 16, 16, 16, 16, 128, 128, 128, 128, 1, 2, 3]))
              (dtype ?F) (y_size ?F)
            = Inr (Some (Reader [128, 128, 128, 128, 1, 2, 3]), [16, 16, 16, 16, 16, 16, 16, 16])"
    by (simp add: fromfile_def items_of_def decode_def upt_conv_Cons)
  have a2: "fromfile (Some (Reader [128, 128, 128, 128, 1, 2, 3])) (dtype ?F) (uv_size ?F)
            = Inr (Some (Reader [128, 128, 1, 2, 3]), [128, 128])"
    by (simp add: fromfile_def items_of_def decode_def upt_conv_Cons)
  have a3: "fromfile (Some (Reader [128, 128, 1, 2, 3])) (dtype ?F) (uv_size ?F)
            = Inr (Some (Reader [1, 2, 3]), [128, 128])"
    by (simp add: fromfile_def items_of_def decode_def upt_conv_Cons)
  have b1: "fromfile (Some (Reader [1, 2, 3])) (dtype ?F) (y_size ?F)
            = Inr (Some (Reader []), [1, 2, 3])"
    by (simp add: fromfile_def items_of_def decode_def upt_conv_Cons)
  have b2: "fromfile (Some (Reader [])) (dtype ?F) (uv_size ?F) = Inr (Some (Reader []), [])"
    by (simp add: fromfile_def items_of_def)
  from read_frame_frame_iff_exact_reads [OF init w h a1 a2 a3]
       read_frame_frame_iff_exact_reads [OF init w h b1 b2 b2]
  show ?thesis by simp
qed


text \<open>
  C9.  When the bytes left on the stream hold a complete Y plane but not the U and V
  planes after it, \<open>read_frame\<close> returns three arrays of shape (0, 0), which have no
  item (the caller's test \<open>np.size(y)\<close> gives 0); the Y items it had read are in none
  of them, and the stream is left at its end.
\<close>

theorem read_frame_truncated_chroma:
  assumes init: "YuvFile_init nm md w h c d = Inr f0" and w: "0 < w" and h: "0 < h"
    and y: "nat (y_size f0) * itemsize (dtype f0) \<le> length bs"
    and short: "length bs < (nat (y_size f0) + 2 * nat (uv_size f0)) * itemsize (dtype f0)"
  shows "read_frame (f0\<lparr>handle := Some (Reader bs)\<rparr>) =
           Inr (f0\<lparr>handle := Some (Reader [])\<rparr>,
                FloatArray 0 0 [], FloatArray 0 0 [], FloatArray 0 0 [])
       \<and> np_size (FloatArray 0 0 []) = 0"
proof -
  have w0: "0 \<le> w" and h0: "0 \<le> h" using w h by simp_all
  show ?thesis
    using short read_frame_bytes [OF init w0 h0 refl refl refl, of bs]
    by (simp add: np_empty_0_0_def np_size_def)
qed

theorem read_frame_truncated_chroma_witness:
  "read_frame
     (\<lparr> name = ''in.yuv'', mode = ''r'', width = 4, height = 2, colour = 420, depth = 8,
         handle = None, h_smpl = 2, v_smpl = 2, dtype = UInt8, round_bias = 0, shift = 0,
         y_shape = (2, 4), y_size = 8, uv_shape = (1, 2), uv_size = 2 \<rparr>
       \<lparr>handle := Some (Reader [16, 16, 16, 16, 16, 16, 16, 16, 128, 128, 128])\<rparr>)
   = Inr (\<lparr> name = ''in.yuv'', mode = ''r'', width = 4, height = 2, colour = 420, depth = 8,
         handle = None, h_smpl = 2, v_smpl = 2, dtype = UInt8, round_bias = 0, shift = 0,
         y_shape = (2, 4), y_size = 8, uv_shape = (1, 2), uv_size = 2 \<rparr>
          \<lparr>handle := Some (Reader [])\<rparr>,
          FloatArray 0 0 [], FloatArray 0 0 [], FloatArray 0 0 [])"
proof -
  let ?F = "\<lparr> name = ''in.yuv'', mode = ''r'', width = 4, height = 2, colour = 420, depth = 8,
         handle = None, h_smpl = 2, v_smpl = 2, dtype = UInt8, round_bias = 0, shift = 0,
         y_shape = (2, 4), y_size = 8, uv_shape = (1, 2), uv_size = 2 \<rparr>"
  let ?bs = "[16, 16, 16, 16, 16, 16, 16, 16, 128, 128, 128] :: byte list"
  have init: "YuvFile_init ''in.yuv'' ''r'' 4 2 420 8 = Inr ?F"
    by (simp add: YuvFile_init_def CSPACE_420_def DEPTH_10_def)
  have w: "(0::int) < 4" and h: "(0::int) < 2" by simp_all
  have y: "nat (y_size ?F) * itemsize (dtype ?F) \<le> length ?bs" by simp
  have short: "length ?bs < (nat (y_size ?F) + 2 * nat (uv_size ?F)) * itemsize (dtype ?F)"
    by simp
  from read_frame_truncated_chroma [OF init w h y short] show ?thesis by simp
qed

lemma tofile_Writer:
  "tofile f64 a (Some (Writer ws)) = Inr (Some (Writer (ws @ tobytes f64 a)))"
  by (simp add: tofile_def)

lemma write_frame_Writer:
  "write_frame f64 (f\<lparr>handle := Some (Writer ws)\<rparr>) y u v =
     Inr (f\<lparr>handle := Some (Writer (ws @ tobytes f64 y @ tobytes f64 u @ tobytes f64 v))\<rparr>)"
  by (simp add: write_frame_def tofile_Writer)

text \<open>
  C3.  Take a codec opened for writing and a codec opened for reading, constructed
  with the same positive width and height, the same colour and the same depth, and a
  frame of three arrays of the codec's element type, in the luma shape and the chroma
  shape, each with the items its shape and type allow.  \<open>write_frame\<close> appends the
  bytes of Y, U and V to the output; \<open>read_frame\<close> on a stream that starts with these
  bytes returns the same three arrays and leaves the stream after them.
\<close>

theorem write_then_read_roundtrip:
  assumes wr: "YuvFile_init nm ''w'' w h c d = Inr fw"
    and rd: "YuvFile_init nm' ''r'' w h c d = Inr fr"
    and w: "0 < w" and h: "0 < h"
    and y: "y = IntArray (dtype fw) (nat h) (nat w) ys" and wy: "wf_array y"
    and u: "u = IntArray (dtype fw) (nat (h div v_smpl fw)) (nat (w div 2)) us" and wu: "wf_array u"
    and v: "v = IntArray (dtype fw) (nat (h div v_smpl fw)) (nat (w div 2)) vs" and wv: "wf_array v"
    and written: "written = tobytes f64 y @ tobytes f64 u @ tobytes f64 v"
  shows "write_frame f64 (fw\<lparr>handle := Some (Writer before)\<rparr>) y u v =
           Inr (fw\<lparr>handle := Some (Writer (before @ written))\<rparr>)
       \<and> read_frame (fr\<lparr>handle := Some (Reader (written @ rest))\<rparr>) =
           Inr (fr\<lparr>handle := Some (Reader rest)\<rparr>, y, u, v)"
proof -
  have w0: "0 \<le> w" and h0: "0 \<le> h" using w h by simp_all
  note fw = YuvFile_init_fields [OF wr]
  note fr = YuvFile_init_fields [OF rd]
  have same: "dtype fr = dtype fw" "v_smpl fr = v_smpl fw" "y_size fr = y_size fw"
    "uv_size fr = uv_size fw"
    by (simp_all add: fw fr)
  note s = init_shapes [OF wr]
  note n = chroma_dims_nonneg [OF s(5) w0 h0]
  let ?dt = "dtype fw"
  let ?sz = "itemsize ?dt"
  let ?Y = "concat (map (encode ?dt) ys)"
  let ?U = "concat (map (encode ?dt) us)"
  let ?V = "concat (map (encode ?dt) vs)"
  let ?bs = "written @ rest"
  have ly: "length ys = nat (y_size fw)" and ry: "list_all (in_range ?dt) ys"
    using wy y w0 h0 by (simp_all add: s(2) nat_mult_distrib)
  have lu: "length us = nat (uv_size fw)" and ru: "list_all (in_range ?dt) us"
    using wu u n by (simp_all add: s(4) nat_mult_distrib)
  have lv: "length vs = nat (uv_size fw)" and rv: "list_all (in_range ?dt) vs"
    using wv v n by (simp_all add: s(4) nat_mult_distrib)
  have wr_bytes: "written = ?Y @ ?U @ ?V"
    by (simp add: written y u v)
  have lY: "length ?Y = nat (y_size fw) * ?sz" by (simp add: length_concat_encode ly)
  have lU: "length ?U = nat (uv_size fw) * ?sz" by (simp add: length_concat_encode lu)
  have lV: "length ?V = nat (uv_size fw) * ?sz" by (simp add: length_concat_encode lv)
  have tot: "(nat (y_size fw) + 2 * nat (uv_size fw)) * ?sz = length written"
    by (simp add: wr_bytes lY lU lV algebra_simps)
  have iy: "items_of ?dt (nat (y_size fw)) ?bs = ys"
    using items_of_encoded [OF ry, of "?U @ ?V @ rest"] by (simp add: wr_bytes ly)
  have d1: "drop (nat (y_size fw) * ?sz) ?bs = ?U @ ?V @ rest"
    by (simp add: wr_bytes lY)
  have iu: "items_of ?dt (nat (uv_size fw)) (?U @ ?V @ rest) = us"
    using items_of_encoded [OF ru, of "?V @ rest"] by (simp add: lu)
  have "(nat (y_size fw) + nat (uv_size fw)) * ?sz = length ?Y + length ?U"
    by (simp add: lY lU algebra_simps)
  then have d2: "drop ((nat (y_size fw) + nat (uv_size fw)) * ?sz) ?bs = ?V @ rest"
    by (simp add: wr_bytes)
  have iv: "items_of ?dt (nat (uv_size fw)) (?V @ rest) = vs"
    using items_of_encoded [OF rv, of rest] by (simp add: lv)
  have d3: "drop ((nat (y_size fw) + 2 * nat (uv_size fw)) * ?sz) ?bs = rest"
    by (simp only: tot) simp
  have le: "(nat (y_size fw) + 2 * nat (uv_size fw)) * ?sz \<le> length ?bs"
    by (simp only: tot) simp
  have rd_res: "read_frame (fr\<lparr>handle := Some (Reader ?bs)\<rparr>) =
           Inr (fr\<lparr>handle := Some (Reader rest)\<rparr>, y, u, v)"
    using le read_frame_bytes [OF rd w0 h0 refl refl refl, of ?bs]
    by (simp only: same d3 iy d1 iu d2 iv y u v if_True)
  have wr_res: "write_frame f64 (fw\<lparr>handle := Some (Writer before)\<rparr>) y u v =
           Inr (fw\<lparr>handle := Some (Writer (before @ written))\<rparr>)"
    by (simp add: write_frame_Writer written)
  show ?thesis using rd_res wr_res by simp
qed

theorem write_then_read_roundtrip_witness:
  "write_frame (\<lambda>x. [])
     (\<lparr> name = ''out.yuv'', mode = ''w'', width = 2, height = 2, colour = 420, depth = 10,
         handle = None, h_smpl = 2, v_smpl = 2, dtype = UInt16, round_bias = 1, shift = 2,
         y_shape = (2, 2), y_size = 4, uv_shape = (1, 1), uv_size = 1 \<rparr>
       \<lparr>handle := Some (Writer [])\<rparr>)
     (IntArray UInt16 2 2 [1023, 0, 512, 3]) (IntArray UInt16 1 1 [513]) (IntArray UInt16 1 1 [1])
   = Inr (\<lparr> name = ''out.yuv'', mode = ''w'', width = 2, height = 2, colour = 420, depth = 10,
         handle = None, h_smpl = 2, v_smpl = 2, dtype = UInt16, round_bias = 1, shift = 2,
         y_shape = (2, 2), y_size = 4, uv_shape = (1, 1), uv_size = 1 \<rparr>
       \<lparr>handle := Some (Writer [255, 3, 0, 0, 0, 2, 3, 0, 1, 2, 1, 0])\<rparr>)
   \<and> read_frame
     (\<lparr> name = ''in.yuv'', mode = ''r'', width = 2, height = 2, colour = 420, depth = 10,
         handle = None, h_smpl = 2, v_smpl = 2, dtype = UInt16, round_bias = 1, shift = 2,
         y_shape = (2, 2), y_size = 4, uv_shape = (1, 1), uv_size = 1 \<rparr>
       \<lparr>handle := Some (Reader [255, 3, 0, 0, 0, 2, 3, 0, 1, 2, 1, 0])\<rparr>)
   = Inr (\<lparr> name = ''in.yuv'', mode = ''r'', width = 2, height = 2, colour = 420, depth = 10,
         handle = None, h_smpl = 2, v_smpl = 2, dtype = UInt16, round_bias = 1, shift = 2,
         y_shape = (2, 2), y_size = 4, uv_shape = (1, 1), uv_size = 1 \<rparr>
       \<lparr>handle := Some (Reader [])\<rparr>,
     IntArray UInt16 2 2 [1023, 0, 512, 3], IntArray UInt16 1 1 [513], IntArray UInt16 1 1 [1])"
proof -
  let ?W = "\<lparr> name = ''out.yuv'', mode = ''w'', width = 2, height = 2, colour = 420, depth = 10,
         handle = None, h_smpl = 2, v_smpl = 2, dtype = UInt16, round_bias = 1, shift = 2,
         y_shape = (2, 2), y_size = 4, uv_shape = (1, 1), uv_size = 1 \<rparr>"
  let ?R = "\<lparr> name = ''in.yuv'', mode = ''r'', width = 2, height = 2, colour = 420, depth = 10,
         handle = None, h_smpl = 2, v_smpl = 2, dtype = UInt16, round_bias = 1, shift = 2,
         y_shape = (2, 2), y_size = 4, uv_shape = (1, 1), uv_size = 1 \<rparr>"
  let ?y = "IntArray UInt16 2 2 [1023, 0, 512, 3]"
  let ?u = "IntArray UInt16 1 1 [513]"
  let ?v = "IntArray UInt16 1 1 [1]"
  have wr: "YuvFile_init ''out.yuv'' ''w'' 2 2 420 10 = Inr ?W"
    by (simp add: YuvFile_init_def CSPACE_420_def DEPTH_10_def)
  have rd: "YuvFile_init ''in.yuv'' ''r'' 2 2 420 10 = Inr ?R"
    by (simp add: YuvFile_init_def CSPACE_420_def DEPTH_10_def)
  have w: "(0::int) < 2" by simp
  have y: "?y = IntArray (dtype ?W) (nat 2) (nat 2) [1023, 0, 512, 3]" by simp
  have u: "?u = IntArray (dtype ?W) (nat (2 div v_smpl ?W)) (nat (2 div 2)) [513]" by simp
  have v: "?v = IntArray (dtype ?W) (nat (2 div v_smpl ?W)) (nat (2 div 2)) [1]" by simp
  have wy: "wf_array ?y" and wu: "wf_array ?u" and wv: "wf_array ?v" by simp_all
  have written: "[255, 3, 0, 0, 0, 2, 3, 0, 1, 2, 1, 0] =
      tobytes (\<lambda>x. []) ?y @ tobytes (\<lambda>x. []) ?u @ tobytes (\<lambda>x. []) ?v"
    by code_simp
  from write_then_read_roundtrip [OF wr rd w w y wy u wu v wv written, of "[]" "[]"]
  show ?thesis by simp
qed

section \<open>Upsampling\<close>

lemma in_range_Int64: "in_range d x \<Longrightarrow> in_range Int64 x"
  by (cases d) auto

lemma flat_index_bound: "i < r \<Longrightarrow> j < c \<Longrightarrow> i * c + j < r * (c::nat)"
proof -
  assume i: "i < r" and j: "j < c"
  have "i * c + j < i * c + c" using j by simp
  also have "\<dots> = Suc i * c" by simp
  also have "\<dots> \<le> r * c" using i by (intro mult_le_mono1) simp
  finally show ?thesis .
qed

lemma div_bound: "k < r * (c::nat) \<Longrightarrow> k div c < r"
  by (simp add: less_mult_imp_div_less)

lemma ones_nth: "q < 2 \<Longrightarrow> [1, 1 :: int] ! q = 1"
  by (cases q) simp_all

lemma ones_nth_real: "q < 2 \<Longrightarrow> real_of_int ([1, 1] ! q) = 1"
  by (cases q) simp_all

lemma promote_Int64: "promote d Int64 = Int64"
  by (cases d) simp_all

lemma kron_h_int:
  assumes len: "length xs = r * c" and rng: "list_all (in_range d) xs"
  shows "kron (IntArray d r c xs) ones_1x2 =
     IntArray Int64 r (c * 2)
       (map (\<lambda>k. xs ! ((k div (c * 2)) * c + (k mod (c * 2)) div 2)) [0..<r * (c * 2)])"
proof -
  have "wrap Int64 (xs ! ((k div (c * 2)) * c + (k mod (c * 2)) div 2)
                    * [1, 1] ! (k mod (c * 2) mod 2))
        = xs ! ((k div (c * 2)) * c + (k mod (c * 2)) div 2)"
    if k: "k < r * (c * 2)" for k
  proof -
    have c: "0 < c" using k by (cases c) simp_all
    have i: "k div (c * 2) < r" using k by (rule div_bound)
    have j: "(k mod (c * 2)) div 2 < c" using c by (simp add: less_mult_imp_div_less mult.commute)
    have "(k div (c * 2)) * c + (k mod (c * 2)) div 2 < length xs"
      using flat_index_bound [OF i j] len by simp
    then have "in_range d (xs ! ((k div (c * 2)) * c + (k mod (c * 2)) div 2))"
      using rng by (simp add: list_all_length)
    then have "in_range Int64 (xs ! ((k div (c * 2)) * c + (k mod (c * 2)) div 2))"
      by (rule in_range_Int64)
    then show ?thesis by (simp add: ones_nth wrap_in_range del: wrap.simps in_range.simps)
  qed
  then show ?thesis
    by (simp add: ones_1x2_def kron_src_def Let_def promote_Int64 del: wrap.simps)
qed

lemma kron_v_int:
  assumes len: "length qs = r * c" and rng: "list_all (in_range Int64) qs"
  shows "kron (IntArray Int64 r c qs) ones_2x1 =
     IntArray Int64 (r * 2) c
       (map (\<lambda>k. qs ! (((k div c) div 2) * c + k mod c)) [0..<(r * 2) * c])"
proof -
  have "wrap Int64 (qs ! (((k div c) div 2) * c + k mod c) * [1, 1] ! ((k div c) mod 2))
        = qs ! (((k div c) div 2) * c + k mod c)"
    if k: "k < (r * 2) * c" for k
  proof -
    have c: "0 < c" using k by (cases c) simp_all
    have "k div c < r * 2" using k by (rule div_bound)
    then have i: "(k div c) div 2 < r" by (simp add: less_mult_imp_div_less)
    have j: "k mod c < c" using c by simp
    have "((k div c) div 2) * c + k mod c < length qs"
      using flat_index_bound [OF i j] len by simp
    then have "in_range Int64 (qs ! (((k div c) div 2) * c + k mod c))"
      using rng by (simp add: list_all_length del: in_range.simps)
    then show ?thesis by (simp add: ones_nth wrap_in_range del: wrap.simps in_range.simps)
  qed
  then show ?thesis
    by (simp add: ones_2x1_def kron_src_def Let_def del: wrap.simps)
qed

lemma kron_h_float:
  "kron (FloatArray r c xs) ones_1x2 =
     FloatArray r (c * 2)
       (map (\<lambda>k. xs ! ((k div (c * 2)) * c + (k mod (c * 2)) div 2)) [0..<r * (c * 2)])"
  by (simp add: ones_1x2_def kron_src_def Let_def ones_nth_real)

lemma kron_v_float:
  "kron (FloatArray r c qs) ones_2x1 =
     FloatArray (r * 2) c
       (map (\<lambda>k. qs ! (((k div c) div 2) * c + k mod c)) [0..<(r * 2) * c])"
  by (simp add: ones_2x1_def kron_src_def Let_def ones_nth_real)


lemma split_index:
  assumes "j < (C::nat)"
  shows "(i * C + j) div C = i" and "(i * C + j) mod C = j"
  using assms by simp_all

lemma upsample_chroma_int:
  assumes len: "length xs = r * c" and rng: "list_all (in_range d) xs"
    and vs: "vs = (if colour f = CSPACE_420 then 2 else 1)"
  shows "upsample_chroma f (IntArray d r c xs) =
     IntArray Int64 (r * vs) (c * 2)
       (map (\<lambda>k. xs ! (((k div (c * 2)) div vs) * c + (k mod (c * 2)) div 2))
            [0..<(r * vs) * (c * 2)])"
proof (cases "colour f = CSPACE_420")
  case False
  then show ?thesis
    using kron_h_int [OF len rng] vs by (simp add: upsample_chroma_def)
next
  case True
  let ?C = "c * 2"
  let ?qs = "map (\<lambda>k. xs ! ((k div ?C) * c + (k mod ?C) div 2)) [0..<r * ?C]"
  have lq: "length ?qs = r * ?C" by simp
  have rq: "list_all (in_range Int64) ?qs"
  proof -
    have "in_range Int64 (xs ! ((k div ?C) * c + (k mod ?C) div 2))" if k: "k < r * ?C" for k
    proof -
      have c: "0 < c" using k by (cases c) simp_all
      have i: "k div ?C < r" using k by (rule div_bound)
      have j: "(k mod ?C) div 2 < c" using c by (simp add: less_mult_imp_div_less mult.commute)
      have "(k div ?C) * c + (k mod ?C) div 2 < length xs"
        using flat_index_bound [OF i j] len by simp
      then have "in_range d (xs ! ((k div ?C) * c + (k mod ?C) div 2))"
        using rng by (simp add: list_all_length)
      then show ?thesis by (rule in_range_Int64)
    qed
    then show ?thesis by (simp add: list_all_length del: in_range.simps)
  qed
  have "?qs ! (((k div ?C) div 2) * ?C + k mod ?C)
        = xs ! (((k div ?C) div 2) * c + (k mod ?C) div 2)"
    if k: "k < (r * 2) * ?C" for k
  proof -
    have c: "0 < ?C" using k by (cases c) simp_all
    have "k div ?C < r * 2" using k by (rule div_bound)
    then have i: "(k div ?C) div 2 < r" by (simp add: less_mult_imp_div_less)
    have j: "k mod ?C < ?C" using c by simp
    have lt: "((k div ?C) div 2) * ?C + k mod ?C < r * ?C"
      using flat_index_bound [OF i j] .
    show ?thesis
      using lt by (simp add: split_index [OF j])
  qed
  then have eq: "map (\<lambda>k. ?qs ! (((k div ?C) div 2) * ?C + k mod ?C)) [0..<(r * 2) * ?C]
      = map (\<lambda>k. xs ! (((k div ?C) div 2) * c + (k mod ?C) div 2)) [0..<(r * 2) * ?C]"
    by (intro map_cong) simp_all
  have "upsample_chroma f (IntArray d r c xs) = kron (kron (IntArray d r c xs) ones_1x2) ones_2x1"
    using True by (simp add: upsample_chroma_def del: kron.simps)
  also have "\<dots> = kron (IntArray Int64 r ?C ?qs) ones_2x1"
    by (simp only: kron_h_int [OF len rng])
  also have "\<dots> = IntArray Int64 (r * 2) ?C
      (map (\<lambda>k. ?qs ! (((k div ?C) div 2) * ?C + k mod ?C)) [0..<(r * 2) * ?C])"
    by (rule kron_v_int [OF lq rq])
  also have "\<dots> = IntArray Int64 (r * 2) ?C
      (map (\<lambda>k. xs ! (((k div ?C) div 2) * c + (k mod ?C) div 2)) [0..<(r * 2) * ?C])"
    by (simp only: eq)
  finally show ?thesis using True vs by simp
qed

lemma upsample_chroma_float:
  assumes vs: "vs = (if colour f = CSPACE_420 then 2 else 1)"
  shows "upsample_chroma f (FloatArray r c xs) =
     FloatArray (r * vs) (c * 2)
       (map (\<lambda>k. xs ! (((k div (c * 2)) div vs) * c + (k mod (c * 2)) div 2))
            [0..<(r * vs) * (c * 2)])"
proof (cases "colour f = CSPACE_420")
  case False
  then show ?thesis
    using vs by (simp add: upsample_chroma_def kron_h_float del: kron.simps)
next
  case True
  let ?C = "c * 2"
  let ?qs = "map (\<lambda>k. xs ! ((k div ?C) * c + (k mod ?C) div 2)) [0..<r * ?C]"
  have "?qs ! (((k div ?C) div 2) * ?C + k mod ?C)
        = xs ! (((k div ?C) div 2) * c + (k mod ?C) div 2)"
    if k: "k < (r * 2) * ?C" for k
  proof -
    have c: "0 < ?C" using k by (cases c) simp_all
    have "k div ?C < r * 2" using k by (rule div_bound)
    then have i: "(k div ?C) div 2 < r" by (simp add: less_mult_imp_div_less)
    have j: "k mod ?C < ?C" using c by simp
    have lt: "((k div ?C) div 2) * ?C + k mod ?C < r * ?C"
      using flat_index_bound [OF i j] .
    show ?thesis
      using lt by (simp add: split_index [OF j])
  qed
  then have eq: "map (\<lambda>k. ?qs ! (((k div ?C) div 2) * ?C + k mod ?C)) [0..<(r * 2) * ?C]
      = map (\<lambda>k. xs ! (((k div ?C) div 2) * c + (k mod ?C) div 2)) [0..<(r * 2) * ?C]"
    by (intro map_cong) simp_all
  have "upsample_chroma f (FloatArray r c xs) = kron (kron (FloatArray r c xs) ones_1x2) ones_2x1"
    using True by (simp add: upsample_chroma_def del: kron.simps)
  also have "\<dots> = kron (FloatArray r ?C ?qs) ones_2x1"
    by (simp only: kron_h_float)
  also have "\<dots> = FloatArray (r * 2) ?C
      (map (\<lambda>k. ?qs ! (((k div ?C) div 2) * ?C + k mod ?C)) [0..<(r * 2) * ?C])"
    by (rule kron_v_float)
  also have "\<dots> = FloatArray (r * 2) ?C
      (map (\<lambda>k. xs ! (((k div ?C) div 2) * c + (k mod ?C) div 2)) [0..<(r * 2) * ?C])"
    by (simp only: eq)
  finally show ?thesis using True vs by simp
qed

lemma upsample_chroma_item:
  assumes wf: "wf_array p" and vs: "vs = (if colour f = CSPACE_420 then 2 else 1)"
    and i: "i < nrows p * vs" and j: "j < ncols p * 2"
  shows "nrows (upsample_chroma f p) = nrows p * vs"
    and "ncols (upsample_chroma f p) = ncols p * 2"
    and "item (upsample_chroma f p) i j = item p (i div vs) (j div 2)"
proof -
  have k: "i * (ncols p * 2) + j < (nrows p * vs) * (ncols p * 2)"
    using flat_index_bound [OF i j] .
  show "nrows (upsample_chroma f p) = nrows p * vs"
    using wf vs by (cases p) (simp_all add: upsample_chroma_int upsample_chroma_float)
  show "ncols (upsample_chroma f p) = ncols p * 2"
    using wf vs by (cases p) (simp_all add: upsample_chroma_int upsample_chroma_float)
  show "item (upsample_chroma f p) i j = item p (i div vs) (j div 2)"
  proof (cases p)
    case (IntArray d r c xs)
    have len: "length xs = r * c" and rng: "list_all (in_range d) xs"
      using wf IntArray by simp_all
    show ?thesis
      using k j unfolding IntArray upsample_chroma_int [OF len rng vs] item_def
      by (simp add: split_index [OF j])
  next
    case (FloatArray r c xs)
    show ?thesis
      using k j unfolding FloatArray upsample_chroma_float [OF vs] item_def
      by (simp add: split_index [OF j])
  qed
qed

text \<open>
  C4.  For a codec of valid geometry (width and height positive and even) and a chroma
  plane of the configured chroma shape, \<open>upsample_chroma\<close> returns an array of the luma
  shape whose item in row \<open>i\<close> and column \<open>j\<close> is the item of the input in row
  \<open>i div v_smpl\<close> and column \<open>j div 2\<close>, where \<open>v_smpl\<close> is 2 for the colour 420 and
  1 otherwise: blocks of 2 by 2 equal items in 4:2:0 and of 1 row by 2 columns in 4:2:2.
\<close>

theorem upsample_chroma_replicates:
  assumes init: "YuvFile_init nm md w h c d = Inr f"
    and w: "0 < w" and ew: "even w" and h: "0 < h" and eh: "even h"
    and wf: "wf_array p"
    and rows: "nrows p = nat (h div v_smpl f)" and cols: "ncols p = nat (w div 2)"
    and i: "i < nat h" and j: "j < nat w"
  shows "v_smpl f = (if c = CSPACE_420 then 2 else 1)
       \<and> nrows (upsample_chroma f p) = nat h \<and> ncols (upsample_chroma f p) = nat w
       \<and> item (upsample_chroma f p) i j = item p (i div nat (v_smpl f)) (j div 2)"
proof -
  note f = YuvFile_init_fields [OF init]
  have v: "v_smpl f = (if c = CSPACE_420 then 2 else 1)" by (simp add: f)
  have vs: "nat (v_smpl f) = (if colour f = CSPACE_420 then 2 else 1)" by (simp add: f)
  have "h div v_smpl f * v_smpl f = h" using eh v by simp
  then have "nat (h div v_smpl f) * nat (v_smpl f) = nat h"
    using h v by (metis nat_mult_distrib pos_imp_zdiv_nonneg_iff zero_less_one zero_less_numeral
        less_imp_le)
  then have R: "nrows p * nat (v_smpl f) = nat h" using rows by simp
  have "w div 2 * 2 = w" using ew by simp
  then have "nat (w div 2) * 2 = nat w" using w by linarith
  then have C: "ncols p * 2 = nat w" using cols by simp
  have i': "i < nrows p * nat (v_smpl f)" using i R by simp
  have j': "j < ncols p * 2" using j C by simp
  note u = upsample_chroma_item [OF wf vs i' j']
  show ?thesis using v u R C by simp
qed

theorem upsample_chroma_replicates_witness:
  "nrows (upsample_chroma
       \<lparr> name = ''in.yuv'', mode = ''r'', width = 4, height = 2, colour = 420, depth = 8,
         handle = None, h_smpl = 2, v_smpl = 2, dtype = UInt8, round_bias = 0, shift = 0,
         y_shape = (2, 4), y_size = 8, uv_shape = (1, 2), uv_size = 2 \<rparr>
       (IntArray UInt8 1 2 [7, 9])) = 2
   \<and> ncols (upsample_chroma
       \<lparr> name = ''in.yuv'', mode = ''r'', width = 4, height = 2, colour = 420, depth = 8,
         handle = None, h_smpl = 2, v_smpl = 2, dtype = UInt8, round_bias = 0, shift = 0,
         y_shape = (2, 4), y_size = 8, uv_shape = (1, 2), uv_size = 2 \<rparr>
       (IntArray UInt8 1 2 [7, 9])) = 4
   \<and> item (upsample_chroma
       \<lparr> name = ''in.yuv'', mode = ''r'', width = 4, height = 2, colour = 420, depth = 8,
         handle = None, h_smpl = 2, v_smpl = 2, dtype = UInt8, round_bias = 0, shift = 0,
         y_shape = (2, 4), y_size = 8, uv_shape = (1, 2), uv_size = 2 \<rparr>
       (IntArray UInt8 1 2 [7, 9])) 1 3 = 9"
proof -
  let ?F = "\<lparr> name = ''in.yuv'', mode = ''r'', width = 4, height = 2, colour = 420, depth = 8,
         handle = None, h_smpl = 2, v_smpl = 2, dtype = UInt8, round_bias = 0, shift = 0,
         y_shape = (2, 4), y_size = 8, uv_shape = (1, 2), uv_size = 2 \<rparr>"
  have init: "YuvFile_init ''in.yuv'' ''r'' 4 2 420 8 = Inr ?F"
    by (simp add: YuvFile_init_def CSPACE_420_def DEPTH_10_def)
  have w: "(0::int) < 4" and ew: "even (4::int)" and h: "(0::int) < 2" and eh: "even (2::int)"
    by simp_all
  have wf: "wf_array (IntArray UInt8 1 2 [7, 9])" by simp
  have rows: "nrows (IntArray UInt8 1 2 [7, 9]) = nat (2 div v_smpl ?F)" by simp
  have cols: "ncols (IntArray UInt8 1 2 [7, 9]) = nat (4 div 2)" by simp
  have i: "(1::nat) < nat 2" and j: "(3::nat) < nat 4" by simp_all
  have it: "item (IntArray UInt8 1 2 [7, 9]) 0 1 = 9" by (simp add: item_def)
  from upsample_chroma_replicates [OF init w ew h eh wf rows cols i j]
  show ?thesis using it by (simp add: CSPACE_420_def)
qed

section \<open>Normalisation and conversion\<close>

lemma norm8_range:
  assumes init: "YuvFile_init nm md w h c d = Inr f" and d: "d = DEPTH_8 \<or> d = DEPTH_10"
    and x: "0 \<le> x" "x < 2 ^ nat d"
  shows "0 \<le> norm8 f x" and "norm8 f x \<le> 256"
    and "wrap (dtype f) (x + round_bias f) = x + round_bias f"
    and "wrap Int64 (x + round_bias f) = x + round_bias f"
    and "wrap Int64 (norm8 f x - 128) = norm8 f x - 128"
proof -
  note f = YuvFile_init_fields [OF init]
  have b: "x < 1024" using d x by (auto simp add: DEPTH_8_def DEPTH_10_def)
  have rb: "round_bias f = 0 \<or> round_bias f = 1" and sh: "shift f = 0 \<or> shift f = 2"
    by (simp_all add: f)
  show n0: "0 \<le> norm8 f x" using x rb by (auto simp add: norm8_def pos_imp_zdiv_nonneg_iff)
  show n1: "norm8 f x \<le> 256"
    using d x by (auto simp add: norm8_def f DEPTH_8_def DEPTH_10_def)
  show "wrap (dtype f) (x + round_bias f) = x + round_bias f"
    using d x by (auto simp add: f DEPTH_8_def DEPTH_10_def)
  have "in_range Int64 (x + round_bias f)" using x b rb by auto
  then show "wrap Int64 (x + round_bias f) = x + round_bias f" by (rule wrap_in_range)
  have "in_range Int64 (norm8 f x - 128)" using n0 n1 by simp
  then show "wrap Int64 (norm8 f x - 128) = norm8 f x - 128" by (rule wrap_in_range)
qed

lemma normalise_array:
  assumes init: "YuvFile_init nm md w h c d = Inr f" and d: "d = DEPTH_8 \<or> d = DEPTH_10"
    and v: "valid_samples d xs" and dt: "dt = dtype f \<or> dt = Int64"
  shows "right_shift (add_int fl (IntArray dt r cc xs) (round_bias f)) (shift f) =
     Inr (IntArray dt r cc (map (norm8 f) xs))"
proof -
  have "wrap dt (x + round_bias f) div 2 ^ nat (shift f) = norm8 f x" if "x \<in> set xs" for x
  proof -
    have x: "0 \<le> x" "x < 2 ^ nat d"
      using v that by (simp_all add: valid_samples_def list_all_iff)
    have "wrap dt (x + round_bias f) = x + round_bias f"
      using dt norm8_range(3,4) [OF init d x] by auto
    then show ?thesis by (simp add: norm8_def)
  qed
  then show ?thesis by simp
qed


lemma bidx_same: "nrows a = R \<Longrightarrow> ncols a = C \<Longrightarrow> k < R * C \<Longrightarrow> bidx a C k = k"
  by (auto simp add: bidx_def)

lemma broadcast_float_right:
  assumes R: "nrows a = R" and C: "ncols a = C"
  shows "broadcast_op fl fi ff a (FloatArray R C zs) =
     Inr (FloatArray R C (map (\<lambda>k. fl (ff (fitem fl a k) (zs ! k))) [0..<R * C]))"
proof -
  have b: "bidx a C k = k" "bidx (FloatArray R C zs) C k = k" if "k < R * C" for k
    using that R C by (simp_all add: bidx_same)
  have m: "map (\<lambda>k. fl (ff (fitem fl a (bidx a C k))
                         (fitem fl (FloatArray R C zs) (bidx (FloatArray R C zs) C k))))
             [0..<R * C]
         = map (\<lambda>k. fl (ff (fitem fl a k) (zs ! k))) [0..<R * C]"
    by (rule map_cong) (simp_all add: b)
  show ?thesis
    using R C m by (cases a) (simp_all add: broadcast_op_def bdim_def)
qed

lemma chroma_term:
  assumes "list_all (\<lambda>z. wrap Int64 (z - 128) = z - 128) zs"
  shows "mul_float fl q (sub_int fl (IntArray Int64 r c zs) (2 ^ 7)) =
     FloatArray r c (map (\<lambda>z. fl (q * fl (real_of_int (z - 128)))) zs)"
  using assms by (simp add: list_all_iff del: wrap.simps)

lemma valid_in_range:
  assumes init: "YuvFile_init nm md w h c d = Inr f" and d: "d = DEPTH_8 \<or> d = DEPTH_10"
    and v: "valid_samples d xs"
  shows "list_all (in_range (dtype f)) xs"
proof -
  note f = YuvFile_init_fields [OF init]
  have "in_range (dtype f) x" if "x \<in> set xs" for x
  proof -
    have "0 \<le> x" "x < 2 ^ nat d"
      using v that by (simp_all add: valid_samples_def list_all_iff)
    then show ?thesis using d by (auto simp add: f DEPTH_8_def DEPTH_10_def)
  qed
  then show ?thesis by (simp add: list_all_iff del: in_range.simps)
qed

lemma geometry_nat:
  assumes init: "YuvFile_init nm md w h c d = Inr f"
    and w: "0 < w" and ew: "even w" and h: "0 < h" and eh: "even h"
  shows "nat (h div v_smpl f) * nat (v_smpl f) = nat h" and "nat (w div 2) * 2 = nat w"
    and "nat (v_smpl f) = (if colour f = CSPACE_420 then 2 else 1)"
    and "nat w div 2 = nat (w div 2)" and "0 < nat (v_smpl f)"
proof -
  note f = YuvFile_init_fields [OF init]
  have v: "v_smpl f = 1 \<or> v_smpl f = 2" by (simp add: f)
  have "h div v_smpl f * v_smpl f = h" using eh v by auto
  moreover have "0 \<le> h div v_smpl f" using h v by (auto simp add: pos_imp_zdiv_nonneg_iff)
  ultimately show "nat (h div v_smpl f) * nat (v_smpl f) = nat h"
    using v by (metis nat_mult_distrib)
  have "w div 2 * 2 = w" using ew by simp
  then show "nat (w div 2) * 2 = nat w" using w by linarith
  then show "nat w div 2 = nat (w div 2)" by linarith
  show "nat (v_smpl f) = (if colour f = CSPACE_420 then 2 else 1)" by (simp add: f)
  show "0 < nat (v_smpl f)" using v by auto
qed

lemma chroma_plane:
  assumes init: "YuvFile_init nm md w h c d = Inr f" and d: "d = DEPTH_8 \<or> d = DEPTH_10"
    and w: "0 < w" and ew: "even w" and h: "0 < h" and eh: "even h"
    and len: "length us = nat (h div v_smpl f) * nat (w div 2)"
    and val: "valid_samples d us"
  shows "right_shift
           (add_int fl (upsample_chroma f (IntArray (dtype f) (nat (h div v_smpl f)) (nat (w div 2)) us))
              (round_bias f)) (shift f)
         = Inr (IntArray Int64 (nat h) (nat w)
                 (map (\<lambda>k. norm8 f (us ! chroma_src f (nat w) k)) [0..<nat h * nat w]))"
    and "mul_float fl q
           (sub_int fl (IntArray Int64 (nat h) (nat w)
                 (map (\<lambda>k. norm8 f (us ! chroma_src f (nat w) k)) [0..<nat h * nat w])) (2 ^ 7))
         = FloatArray (nat h) (nat w)
             (map (\<lambda>k. fl (q * fl (real_of_int (norm8 f (us ! chroma_src f (nat w) k) - 128))))
                  [0..<nat h * nat w])"
proof -
  note g = geometry_nat [OF init w ew h eh]
  let ?r = "nat (h div v_smpl f)" and ?c = "nat (w div 2)" and ?vs = "nat (v_smpl f)"
  let ?H = "nat h" and ?W = "nat w"
  let ?up = "map (\<lambda>k. us ! chroma_src f ?W k) [0..<?H * ?W]"
  have src: "chroma_src f ?W k < length us" if k: "k < ?H * ?W" for k
  proof -
    have W: "0 < ?W" using w by simp
    have "k div ?W < ?r * ?vs" using k g(1) by (simp add: less_mult_imp_div_less)
    then have i: "(k div ?W) div ?vs < ?r" by (simp add: less_mult_imp_div_less)
    have "k mod ?W < ?c * 2" using W g(2) by simp
    then have j: "(k mod ?W) div 2 < ?c" by (simp add: less_mult_imp_div_less)
    show ?thesis
      using flat_index_bound [OF i j] len by (simp add: chroma_src_def g(4))
  qed
  have up: "upsample_chroma f (IntArray (dtype f) ?r ?c us) = IntArray Int64 ?H ?W ?up"
    using upsample_chroma_int [OF len valid_in_range [OF init d val] g(3)]
    by (simp add: g(1,2) chroma_src_def g(4))
  have vup: "valid_samples d ?up"
    using val src by (simp add: valid_samples_def list_all_length)
  show "right_shift
           (add_int fl (upsample_chroma f (IntArray (dtype f) ?r ?c us)) (round_bias f)) (shift f)
         = Inr (IntArray Int64 ?H ?W
                 (map (\<lambda>k. norm8 f (us ! chroma_src f ?W k)) [0..<?H * ?W]))"
    using normalise_array [OF init d vup, where dt = Int64 and r = ?H and cc = ?W and fl = fl]
    by (simp add: up comp_def)
  have "wrap Int64 (norm8 f (us ! chroma_src f ?W k) - 128) = norm8 f (us ! chroma_src f ?W k) - 128"
    if k: "k < ?H * ?W" for k
  proof -
    have "0 \<le> us ! chroma_src f ?W k" "us ! chroma_src f ?W k < 2 ^ nat d"
      using val src [OF k] by (simp_all add: valid_samples_def list_all_length)
    then show ?thesis by (rule norm8_range(5) [OF init d])
  qed
  then have "list_all (\<lambda>z. wrap Int64 (z - 128) = z - 128)
       (map (\<lambda>k. norm8 f (us ! chroma_src f ?W k)) [0..<?H * ?W])"
    by (simp add: list_all_length del: wrap.simps)
  from chroma_term [OF this]
  show "mul_float fl q
           (sub_int fl (IntArray Int64 ?H ?W
                 (map (\<lambda>k. norm8 f (us ! chroma_src f ?W k)) [0..<?H * ?W])) (2 ^ 7))
         = FloatArray ?H ?W
             (map (\<lambda>k. fl (q * fl (real_of_int (norm8 f (us ! chroma_src f ?W k) - 128))))
                  [0..<?H * ?W])"
    by (simp add: comp_def)
qed


lemma clip_float:
  "clip (FloatArray r c xs) 0 (2 ^ 8 - 1) = FloatArray r c (map clip8 xs)"
  by (simp add: clip8_def)

lemma clip8_range: "0 \<le> clip8 x" "clip8 x \<le> 255"
  by (simp_all add: clip8_def)

lemma to_rgb_8b_closed_form:
  assumes init: "YuvFile_init nm md w h c d = Inr f" and d: "d = DEPTH_8 \<or> d = DEPTH_10"
    and w: "0 < w" and ew: "even w" and h: "0 < h" and eh: "even h"
    and leny: "length ys = nat h * nat w" and valy: "valid_samples d ys"
    and lenu: "length us = nat (h div v_smpl f) * nat (w div 2)" and valu: "valid_samples d us"
    and lenv: "length vs = nat (h div v_smpl f) * nat (w div 2)" and valv: "valid_samples d vs"
  shows "to_rgb_8b fl f (IntArray (dtype f) (nat h) (nat w) ys)
           (IntArray (dtype f) (nat (h div v_smpl f)) (nat (w div 2)) us)
           (IntArray (dtype f) (nat (h div v_smpl f)) (nat (w div 2)) vs) =
     Inr (FloatArray (nat h) (nat w)
            (map (\<lambda>k. clip8 (fl (fl (real_of_int (norm8 f (ys ! k)))
                     + fl (fl (1402 / 1000)
                           * fl (real_of_int (norm8 f (vs ! chroma_src f (nat w) k) - 128))))))
                 [0..<nat h * nat w]),
          FloatArray (nat h) (nat w)
            (map (\<lambda>k. clip8 (fl (fl (fl (real_of_int (norm8 f (ys ! k)))
                     - fl (fl (344 / 1000)
                           * fl (real_of_int (norm8 f (us ! chroma_src f (nat w) k) - 128))))
                     - fl (fl (714 / 1000)
                           * fl (real_of_int (norm8 f (vs ! chroma_src f (nat w) k) - 128))))))
                 [0..<nat h * nat w]),
          FloatArray (nat h) (nat w)
            (map (\<lambda>k. clip8 (fl (fl (real_of_int (norm8 f (ys ! k)))
                     + fl (fl (1772 / 1000)
                           * fl (real_of_int (norm8 f (us ! chroma_src f (nat w) k) - 128))))))
                 [0..<nat h * nat w]))"
proof -
  let ?H = "nat h" and ?W = "nat w"
  let ?n = "?H * ?W"
  let ?Y = "\<lambda>k. fl (real_of_int (norm8 f (ys ! k)))"
  let ?Cb = "\<lambda>k. fl (real_of_int (norm8 f (us ! chroma_src f ?W k) - 128))"
  let ?Cr = "\<lambda>k. fl (real_of_int (norm8 f (vs ! chroma_src f ?W k) - 128))"
  let ?y8 = "IntArray (dtype f) ?H ?W (map (norm8 f) ys)"
  note cb = chroma_plane [OF init d w ew h eh lenu valu]
  note cr = chroma_plane [OF init d w ew h eh lenv valv]
  have y8: "right_shift (add_int fl (IntArray (dtype f) ?H ?W ys) (round_bias f)) (shift f) = Inr ?y8"
    by (rule normalise_array [OF init d valy]) simp
  have r0: "add_arr fl ?y8 (FloatArray ?H ?W (map (\<lambda>k. fl (q * ?Cr k)) [0..<?n]))
      = Inr (FloatArray ?H ?W (map (\<lambda>k. fl (?Y k + fl (q * ?Cr k))) [0..<?n]))" for q
    unfolding add_arr_def
    by (subst broadcast_float_right [where R = ?H and C = ?W]) (simp_all add: leny)
  have g0: "sub_arr fl ?y8 (FloatArray ?H ?W (map (\<lambda>k. fl (q * ?Cb k)) [0..<?n]))
      = Inr (FloatArray ?H ?W (map (\<lambda>k. fl (?Y k - fl (q * ?Cb k))) [0..<?n]))" for q
    unfolding sub_arr_def
    by (subst broadcast_float_right [where R = ?H and C = ?W]) (simp_all add: leny)
  have g1: "sub_arr fl (FloatArray ?H ?W (map (\<lambda>k. fl (?Y k - fl (p * ?Cb k))) [0..<?n]))
                    (FloatArray ?H ?W (map (\<lambda>k. fl (q * ?Cr k)) [0..<?n]))
      = Inr (FloatArray ?H ?W
              (map (\<lambda>k. fl (fl (?Y k - fl (p * ?Cb k)) - fl (q * ?Cr k))) [0..<?n]))" for p q
    unfolding sub_arr_def
    by (subst broadcast_float_right [where R = ?H and C = ?W]) simp_all
  have b0: "add_arr fl ?y8 (FloatArray ?H ?W (map (\<lambda>k. fl (q * ?Cb k)) [0..<?n]))
      = Inr (FloatArray ?H ?W (map (\<lambda>k. fl (?Y k + fl (q * ?Cb k))) [0..<?n]))" for q
    unfolding add_arr_def
    by (subst broadcast_float_right [where R = ?H and C = ?W]) (simp_all add: leny)
  show ?thesis
    unfolding to_rgb_8b_def Let_def
    by (simp only: cb cr y8 r0 g0 g1 b0 sum.case clip_float list.map_comp comp_def)
qed

text \<open>
  C5, as the code has it.  On an array of samples valid for the depth, the
  normalisation \<open>right_shift (add_int fl a round_bias) shift\<close> gives, item by item,
  \<open>(sample + round_bias) >> shift\<close>: with shift 0 and bias 0 at depth 8, where it
  returns the array unchanged, and with shift 2 and bias 1 at depth 10, where the item
  is \<open>(sample + 1) div 4\<close>.
\<close>

theorem normalisation_shift_bias:
  assumes init: "YuvFile_init nm md w h c d = Inr f"
    and val: "valid_samples d xs" and dt: "dt = dtype f \<or> dt = Int64"
  shows "(d = DEPTH_8 \<longrightarrow> shift f = 0 \<and> round_bias f = 0
           \<and> right_shift (add_int fl (IntArray dt r cc xs) (round_bias f)) (shift f)
               = Inr (IntArray dt r cc xs))
       \<and> (d = DEPTH_10 \<longrightarrow> shift f = 2 \<and> round_bias f = 1
           \<and> right_shift (add_int fl (IntArray dt r cc xs) (round_bias f)) (shift f)
               = Inr (IntArray dt r cc (map (\<lambda>x. (x + 1) div 2 ^ 2) xs)))"
proof -
  note f = YuvFile_init_fields [OF init]
  have a: "shift f = 0 \<and> round_bias f = 0
           \<and> right_shift (add_int fl (IntArray dt r cc xs) (round_bias f)) (shift f)
               = Inr (IntArray dt r cc xs)" if d: "d = DEPTH_8"
  proof -
    have c: "shift f = 0" "round_bias f = 0"
      using d by (simp_all add: f DEPTH_8_def DEPTH_10_def)
    have "map (norm8 f) xs = xs" by (simp add: norm8_def [abs_def] c)
    then show ?thesis
      using normalise_array [OF init _ val dt, where r = r and cc = cc and fl = fl] d c by simp
  qed
  have b: "shift f = 2 \<and> round_bias f = 1
           \<and> right_shift (add_int fl (IntArray dt r cc xs) (round_bias f)) (shift f)
               = Inr (IntArray dt r cc (map (\<lambda>x. (x + 1) div 2 ^ 2) xs))" if d: "d = DEPTH_10"
  proof -
    have c: "shift f = 2" "round_bias f = 1"
      using d by (simp_all add: f)
    have "map (norm8 f) xs = map (\<lambda>x. (x + 1) div 2 ^ 2) xs"
      by (simp add: norm8_def [abs_def] c)
    then show ?thesis
      using normalise_array [OF init _ val dt, where r = r and cc = cc and fl = fl] d c by simp
  qed
  show ?thesis using a b by blast
qed

theorem normalisation_shift_bias_witness:
  "right_shift (add_int binary64 (IntArray UInt8 1 3 [0, 130, 255]) 0) 0
     = Inr (IntArray UInt8 1 3 [0, 130, 255])
   \<and> right_shift (add_int binary64 (IntArray UInt16 1 4 [0, 2, 3, 1023]) 1) 2
       = Inr (IntArray UInt16 1 4 [0, 0, 1, 256])"
proof -
  let ?F8 = "\<lparr> name = ''in.yuv'', mode = ''r'', width = 4, height = 2, colour = 420, depth = 8,
         handle = None, h_smpl = 2, v_smpl = 2, dtype = UInt8, round_bias = 0, shift = 0,
         y_shape = (2, 4), y_size = 8, uv_shape = (1, 2), uv_size = 2 \<rparr>"
  let ?F10 = "\<lparr> name = ''in.yuv'', mode = ''r'', width = 4, height = 2, colour = 420, depth = 10,
         handle = None, h_smpl = 2, v_smpl = 2, dtype = UInt16, round_bias = 1, shift = 2,
         y_shape = (2, 4), y_size = 8, uv_shape = (1, 2), uv_size = 2 \<rparr>"
  have i8: "YuvFile_init ''in.yuv'' ''r'' 4 2 420 8 = Inr ?F8"
    by (simp add: YuvFile_init_def CSPACE_420_def DEPTH_10_def)
  have i10: "YuvFile_init ''in.yuv'' ''r'' 4 2 420 10 = Inr ?F10"
    by (simp add: YuvFile_init_def CSPACE_420_def DEPTH_10_def)
  have v8: "valid_samples 8 [0, 130, 255]" by (simp add: valid_samples_def)
  have v10: "valid_samples 10 [0, 2, 3, 1023]" by (simp add: valid_samples_def)
  have d8: "UInt8 = dtype ?F8 \<or> UInt8 = Int64" by simp
  have d10: "UInt16 = dtype ?F10 \<or> UInt16 = Int64" by simp
  from normalisation_shift_bias [OF i8 v8 d8, where r = 1 and cc = 3 and fl = binary64]
       normalisation_shift_bias [OF i10 v10 d10, where r = 1 and cc = 4 and fl = binary64]
  show ?thesis by (simp add: DEPTH_8_def DEPTH_10_def)
qed

text \<open>The claim C5 as the specification states it fails in its last part: at depth 10
  the sample 2, whose dropped bits are exactly one half, is normalised to 0, while
  rounding half up gives 1.\<close>

theorem normalisation_not_round_half_up:
  "right_shift
     (add_int binary64 (IntArray UInt16 1 1 [2])
        (round_bias (projr (YuvFile_init ''in.yuv'' ''r'' 2 2 CSPACE_420 DEPTH_10))))
     (shift (projr (YuvFile_init ''in.yuv'' ''r'' 2 2 CSPACE_420 DEPTH_10)))
     = Inr (IntArray UInt16 1 1 [0])
   \<and> round_half_up 2 (nat (shift (projr (YuvFile_init ''in.yuv'' ''r'' 2 2 CSPACE_420 DEPTH_10)))) = 1"
  by (simp add: YuvFile_init_def round_half_up_def CSPACE_420_def DEPTH_10_def)

text \<open>
  C1.  For a codec of valid geometry and depth 8 or 10 and a frame of the codec's
  element type whose planes have the luma and chroma shapes and hold valid samples,
  \<open>to_rgb_8b\<close> returns three arrays.  With \<open>Y8\<close>, \<open>Cb8\<close> and \<open>Cr8\<close> the normalised
  luma sample at row \<open>i\<close>, column \<open>j\<close> and the normalised chroma samples at row
  \<open>i div v_smpl\<close>, column \<open>j div 2\<close> (the upsampling), their items at row \<open>i\<close>,
  column \<open>j\<close> are \<open>clip (Y8 + 1.402 (Cr8 - 128))\<close>,
  \<open>clip (Y8 - 0.344 (Cb8 - 128) - 0.714 (Cr8 - 128))\<close> and
  \<open>clip (Y8 + 1.772 (Cb8 - 128))\<close>, computed in \<^verbatim>\<open>float64\<close>: the differences
  \<open>Cb8 - 128\<close> and \<open>Cr8 - 128\<close> are integer differences, and \<open>fl\<close> rounds each
  constant, each conversion of an integer, each product and each sum or difference.
  Each item is between 0 and 255.  This holds for every rounding \<open>fl\<close>.
\<close>

theorem to_rgb_8b_formula:
  assumes init: "YuvFile_init nm md w h c d = Inr f" and d: "d = DEPTH_8 \<or> d = DEPTH_10"
    and w: "0 < w" and ew: "even w" and h: "0 < h" and eh: "even h"
    and leny: "length ys = nat h * nat w" and valy: "valid_samples d ys"
    and lenu: "length us = nat (h div v_smpl f) * nat (w div 2)" and valu: "valid_samples d us"
    and lenv: "length vs = nat (h div v_smpl f) * nat (w div 2)" and valv: "valid_samples d vs"
    and i: "i < nat h" and j: "j < nat w"
    and Y8: "Y8 = (ys ! (i * nat w + j) + round_bias f) div 2 ^ nat (shift f)"
    and Cb8: "Cb8 = (us ! ((i div nat (v_smpl f)) * nat (w div 2) + j div 2)
                       + round_bias f) div 2 ^ nat (shift f)"
    and Cr8: "Cr8 = (vs ! ((i div nat (v_smpl f)) * nat (w div 2) + j div 2)
                       + round_bias f) div 2 ^ nat (shift f)"
  shows "\<exists>r g b.
           to_rgb_8b fl f (IntArray (dtype f) (nat h) (nat w) ys)
             (IntArray (dtype f) (nat (h div v_smpl f)) (nat (w div 2)) us)
             (IntArray (dtype f) (nat (h div v_smpl f)) (nat (w div 2)) vs) = Inr (r, g, b)
         \<and> item r i j =
             min (max (fl (fl (real_of_int Y8)
                           + fl (fl (1402 / 1000) * fl (real_of_int (Cr8 - 128))))) 0) 255
         \<and> item g i j =
             min (max (fl (fl (fl (real_of_int Y8)
                               - fl (fl (344 / 1000) * fl (real_of_int (Cb8 - 128))))
                           - fl (fl (714 / 1000) * fl (real_of_int (Cr8 - 128))))) 0) 255
         \<and> item b i j =
             min (max (fl (fl (real_of_int Y8)
                           + fl (fl (1772 / 1000) * fl (real_of_int (Cb8 - 128))))) 0) 255
         \<and> 0 \<le> item r i j \<and> item r i j \<le> 255
         \<and> 0 \<le> item g i j \<and> item g i j \<le> 255
         \<and> 0 \<le> item b i j \<and> item b i j \<le> 255"
proof -
  note g = geometry_nat [OF init w ew h eh]
  let ?n = "nat h * nat w"
  let ?k = "i * nat w + j"
  let ?R = "\<lambda>k. clip8 (fl (fl (real_of_int (norm8 f (ys ! k)))
                     + fl (fl (1402 / 1000)
                           * fl (real_of_int (norm8 f (vs ! chroma_src f (nat w) k) - 128)))))"
  let ?G = "\<lambda>k. clip8 (fl (fl (fl (real_of_int (norm8 f (ys ! k)))
                     - fl (fl (344 / 1000)
                           * fl (real_of_int (norm8 f (us ! chroma_src f (nat w) k) - 128))))
                     - fl (fl (714 / 1000)
                           * fl (real_of_int (norm8 f (vs ! chroma_src f (nat w) k) - 128)))))"
  let ?B = "\<lambda>k. clip8 (fl (fl (real_of_int (norm8 f (ys ! k)))
                     + fl (fl (1772 / 1000)
                           * fl (real_of_int (norm8 f (us ! chroma_src f (nat w) k) - 128)))))"
  have k: "?k < ?n" using flat_index_bound [OF i j] .
  have src: "chroma_src f (nat w) ?k = (i div nat (v_smpl f)) * nat (w div 2) + j div 2"
    using j by (simp add: chroma_src_def g(4))
  have it: "item (FloatArray (nat h) (nat w) (map F [0..<?n])) i j = F ?k" for F :: "nat \<Rightarrow> real"
    using k by (simp add: item_def)
  have y: "norm8 f (ys ! ?k) = Y8" by (simp only: Y8 norm8_def)
  have cb: "norm8 f (us ! chroma_src f (nat w) ?k) = Cb8"
    by (simp only: Cb8 norm8_def src)
  have cr: "norm8 f (vs ! chroma_src f (nat w) ?k) = Cr8"
    by (simp only: Cr8 norm8_def src)
  have r: "item (FloatArray (nat h) (nat w) (map ?R [0..<?n])) i j
           = min (max (fl (fl (real_of_int Y8)
                           + fl (fl (1402 / 1000) * fl (real_of_int (Cr8 - 128))))) 0) 255"
    by (simp only: it y cr clip8_def)
  have gg: "item (FloatArray (nat h) (nat w) (map ?G [0..<?n])) i j
           = min (max (fl (fl (fl (real_of_int Y8)
                               - fl (fl (344 / 1000) * fl (real_of_int (Cb8 - 128))))
                           - fl (fl (714 / 1000) * fl (real_of_int (Cr8 - 128))))) 0) 255"
    by (simp only: it y cb cr clip8_def)
  have b: "item (FloatArray (nat h) (nat w) (map ?B [0..<?n])) i j
           = min (max (fl (fl (real_of_int Y8)
                           + fl (fl (1772 / 1000) * fl (real_of_int (Cb8 - 128))))) 0) 255"
    by (simp only: it y cb clip8_def)
  have rng: "0 \<le> item (FloatArray (nat h) (nat w) (map F [0..<?n])) i j
           \<and> item (FloatArray (nat h) (nat w) (map F [0..<?n])) i j \<le> 255"
    if "\<And>k. 0 \<le> F k \<and> F k \<le> 255" for F :: "nat \<Rightarrow> real"
    using that by (simp only: it)
  have rr: "0 \<le> item (FloatArray (nat h) (nat w) (map ?R [0..<?n])) i j
           \<and> item (FloatArray (nat h) (nat w) (map ?R [0..<?n])) i j \<le> 255"
    by (rule rng) (simp only: clip8_range simp_thms)
  have rg: "0 \<le> item (FloatArray (nat h) (nat w) (map ?G [0..<?n])) i j
           \<and> item (FloatArray (nat h) (nat w) (map ?G [0..<?n])) i j \<le> 255"
    by (rule rng) (simp only: clip8_range simp_thms)
  have rb: "0 \<le> item (FloatArray (nat h) (nat w) (map ?B [0..<?n])) i j
           \<and> item (FloatArray (nat h) (nat w) (map ?B [0..<?n])) i j \<le> 255"
    by (rule rng) (simp only: clip8_range simp_thms)
  note cf = to_rgb_8b_closed_form [OF init d w ew h eh leny valy lenu valu lenv valv, of fl]
  show ?thesis
    using cf r gg b rr rg rb by blast
qed

text \<open>With the rounding of binary64: for Y = 0, Cb = 0, Cr = 16 the green item is
  123.99999999999999 (not 124) and red, blue are clipped to 0; for Y = 100, Cb = 90,
  Cr = 200 the three items are 200.944, 61.664 and 32.664 as binary64 has them.\<close>

theorem to_rgb_8b_formula_witness:
  "item (fst (projr (to_rgb_8b binary64
       \<lparr> name = ''in.yuv'', mode = ''r'', width = 2, height = 2, colour = 420, depth = 8,
         handle = None, h_smpl = 2, v_smpl = 2, dtype = UInt8, round_bias = 0, shift = 0,
         y_shape = (2, 2), y_size = 4, uv_shape = (1, 1), uv_size = 1 \<rparr>
       (IntArray UInt8 2 2 [0, 0, 0, 0]) (IntArray UInt8 1 1 [0]) (IntArray UInt8 1 1 [16]))))
       1 1 = 0
   \<and> item (fst (snd (projr (to_rgb_8b binary64
       \<lparr> name = ''in.yuv'', mode = ''r'', width = 2, height = 2, colour = 420, depth = 8,
         handle = None, h_smpl = 2, v_smpl = 2, dtype = UInt8, round_bias = 0, shift = 0,
         y_shape = (2, 2), y_size = 4, uv_shape = (1, 1), uv_size = 1 \<rparr>
       (IntArray UInt8 2 2 [0, 0, 0, 0]) (IntArray UInt8 1 1 [0]) (IntArray UInt8 1 1 [16])))))
       1 1 = 8725724278030335 / 70368744177664
   \<and> item (snd (snd (projr (to_rgb_8b binary64
       \<lparr> name = ''in.yuv'', mode = ''r'', width = 2, height = 2, colour = 420, depth = 8,
         handle = None, h_smpl = 2, v_smpl = 2, dtype = UInt8, round_bias = 0, shift = 0,
         y_shape = (2, 2), y_size = 4, uv_shape = (1, 1), uv_size = 1 \<rparr>
       (IntArray UInt8 2 2 [0, 0, 0, 0]) (IntArray UInt8 1 1 [0]) (IntArray UInt8 1 1 [16])))))
       1 1 = 0
   \<and> item (fst (projr (to_rgb_8b binary64
       \<lparr> name = ''in.yuv'', mode = ''r'', width = 2, height = 2, colour = 420, depth = 8,
         handle = None, h_smpl = 2, v_smpl = 2, dtype = UInt8, round_bias = 0, shift = 0,
         y_shape = (2, 2), y_size = 4, uv_shape = (1, 1), uv_size = 1 \<rparr>
       (IntArray UInt8 2 2 [7, 8, 9, 100]) (IntArray UInt8 1 1 [90]) (IntArray UInt8 1 1 [200]))))
       1 1 = 7070088465018257 / 35184372088832
   \<and> item (fst (snd (projr (to_rgb_8b binary64
       \<lparr> name = ''in.yuv'', mode = ''r'', width = 2, height = 2, colour = 420, depth = 8,
         handle = None, h_smpl = 2, v_smpl = 2, dtype = UInt8, round_bias = 0, shift = 0,
         y_shape = (2, 2), y_size = 4, uv_shape = (1, 1), uv_size = 1 \<rparr>
       (IntArray UInt8 2 2 [7, 8, 9, 100]) (IntArray UInt8 1 1 [90]) (IntArray UInt8 1 1 [200])))))
       1 1 = 4339218240971473 / 70368744177664
   \<and> item (snd (snd (projr (to_rgb_8b binary64
       \<lparr> name = ''in.yuv'', mode = ''r'', width = 2, height = 2, colour = 420, depth = 8,
         handle = None, h_smpl = 2, v_smpl = 2, dtype = UInt8, round_bias = 0, shift = 0,
         y_shape = (2, 2), y_size = 4, uv_shape = (1, 1), uv_size = 1 \<rparr>
       (IntArray UInt8 2 2 [7, 8, 9, 100]) (IntArray UInt8 1 1 [90]) (IntArray UInt8 1 1 [200])))))
       1 1 = 2298524659819217 / 70368744177664"
proof -
  let ?F = "\<lparr> name = ''in.yuv'', mode = ''r'', width = 2, height = 2, colour = 420, depth = 8,
         handle = None, h_smpl = 2, v_smpl = 2, dtype = UInt8, round_bias = 0, shift = 0,
         y_shape = (2, 2), y_size = 4, uv_shape = (1, 1), uv_size = 1 \<rparr>"
  have init: "YuvFile_init ''in.yuv'' ''r'' 2 2 420 8 = Inr ?F"
    by (simp add: YuvFile_init_def CSPACE_420_def DEPTH_10_def)
  have d: "(8::int) = DEPTH_8 \<or> (8::int) = DEPTH_10" by (simp add: DEPTH_8_def)
  have w: "(0::int) < 2" and ew: "even (2::int)" by simp_all
  have i: "(1::nat) < nat 2" by simp
  have lyA: "length [0, 0, 0, 0 :: int] = nat 2 * nat 2"
    and lyB: "length [7, 8, 9, 100 :: int] = nat 2 * nat 2" by simp_all
  have luA: "length [0 :: int] = nat (2 div v_smpl ?F) * nat (2 div 2)"
    and lvA: "length [16 :: int] = nat (2 div v_smpl ?F) * nat (2 div 2)"
    and luB: "length [90 :: int] = nat (2 div v_smpl ?F) * nat (2 div 2)"
    and lvB: "length [200 :: int] = nat (2 div v_smpl ?F) * nat (2 div 2)" by simp_all
  have vyA: "valid_samples 8 [0, 0, 0, 0]" and vuA: "valid_samples 8 [0]"
    and vvA: "valid_samples 8 [16]" and vyB: "valid_samples 8 [7, 8, 9, 100]"
    and vuB: "valid_samples 8 [90]" and vvB: "valid_samples 8 [200]"
    by (simp_all add: valid_samples_def)
  have yA: "(0::int) = ([0, 0, 0, 0] ! (1 * nat 2 + 1) + round_bias ?F) div 2 ^ nat (shift ?F)"
    and uA: "(0::int) = ([0] ! ((1 div nat (v_smpl ?F)) * nat (2 div 2) + 1 div 2)
                          + round_bias ?F) div 2 ^ nat (shift ?F)"
    and vA: "(16::int) = ([16] ! ((1 div nat (v_smpl ?F)) * nat (2 div 2) + 1 div 2)
                          + round_bias ?F) div 2 ^ nat (shift ?F)"
    and yB: "(100::int) = ([7, 8, 9, 100] ! (1 * nat 2 + 1) + round_bias ?F) div 2 ^ nat (shift ?F)"
    and uB: "(90::int) = ([90] ! ((1 div nat (v_smpl ?F)) * nat (2 div 2) + 1 div 2)
                          + round_bias ?F) div 2 ^ nat (shift ?F)"
    and vB: "(200::int) = ([200] ! ((1 div nat (v_smpl ?F)) * nat (2 div 2) + 1 div 2)
                          + round_bias ?F) div 2 ^ nat (shift ?F)"
    by simp_all
  have c0: "binary64 (binary64 (real_of_int 0)
              + binary64 (binary64 (1402 / 1000) * binary64 (real_of_int (16 - 128))))
             = - 1381197710719189 / 8796093022208"
    by code_simp
  have c1: "binary64 (binary64 (binary64 (real_of_int 0)
                - binary64 (binary64 (344 / 1000) * binary64 (real_of_int (0 - 128))))
              - binary64 (binary64 (714 / 1000) * binary64 (real_of_int (16 - 128))))
             = 8725724278030335 / 70368744177664"
    by code_simp
  have c2: "binary64 (binary64 (real_of_int 0)
              + binary64 (binary64 (1772 / 1000) * binary64 (real_of_int (0 - 128))))
             = - 7980378539700519 / 35184372088832"
    by code_simp
  have c3: "binary64 (binary64 (real_of_int 100)
              + binary64 (binary64 (1402 / 1000) * binary64 (real_of_int (200 - 128))))
             = 7070088465018257 / 35184372088832"
    by code_simp
  have c4: "binary64 (binary64 (binary64 (real_of_int 100)
                - binary64 (binary64 (344 / 1000) * binary64 (real_of_int (90 - 128))))
              - binary64 (binary64 (714 / 1000) * binary64 (real_of_int (200 - 128))))
             = 4339218240971473 / 70368744177664"
    by code_simp
  have c5: "binary64 (binary64 (real_of_int 100)
              + binary64 (binary64 (1772 / 1000) * binary64 (real_of_int (90 - 128))))
             = 2298524659819217 / 70368744177664"
    by code_simp
  note tA = to_rgb_8b_formula [OF init d w ew w ew lyA vyA luA vuA lvA vvA i i yA uA vA,
      where fl = binary64, unfolded c0 c1 c2]
  note tB = to_rgb_8b_formula [OF init d w ew w ew lyB vyB luB vuB lvB vvB i i yB uB vB,
      where fl = binary64, unfolded c3 c4 c5]
  from tA obtain r g b where
    resA: "to_rgb_8b binary64 ?F (IntArray UInt8 2 2 [0, 0, 0, 0]) (IntArray UInt8 1 1 [0])
            (IntArray UInt8 1 1 [16]) = Inr (r, g, b)"
    and rA: "item r 1 1 = 0" and gA: "item g 1 1 = 8725724278030335 / 70368744177664"
    and bA: "item b 1 1 = 0"
    by auto
  from tB obtain r' g' b' where
    resB: "to_rgb_8b binary64 ?F (IntArray UInt8 2 2 [7, 8, 9, 100]) (IntArray UInt8 1 1 [90])
            (IntArray UInt8 1 1 [200]) = Inr (r', g', b')"
    and rB: "item r' 1 1 = 7070088465018257 / 35184372088832"
    and gB: "item g' 1 1 = 4339218240971473 / 70368744177664"
    and bB: "item b' 1 1 = 2298524659819217 / 70368744177664"
    by auto
  show ?thesis using resA rA gA bA resB rB gB bB by simp
qed

text \<open>
  C8, as the code has it.  For the same frames, the three arrays \<open>to_rgb_8b\<close> returns
  are \<^verbatim>\<open>float64\<close> arrays of the shape of the luma plane, with as many items as the
  shape says, each between 0 and 255.  This holds for every rounding \<open>fl\<close>.
\<close>

theorem to_rgb_8b_result_arrays:
  assumes init: "YuvFile_init nm md w h c d = Inr f" and d: "d = DEPTH_8 \<or> d = DEPTH_10"
    and w: "0 < w" and ew: "even w" and h: "0 < h" and eh: "even h"
    and leny: "length ys = nat h * nat w" and valy: "valid_samples d ys"
    and lenu: "length us = nat (h div v_smpl f) * nat (w div 2)" and valu: "valid_samples d us"
    and lenv: "length vs = nat (h div v_smpl f) * nat (w div 2)" and valv: "valid_samples d vs"
  shows "\<exists>rs gs bs.
           to_rgb_8b fl f (IntArray (dtype f) (nat h) (nat w) ys)
             (IntArray (dtype f) (nat (h div v_smpl f)) (nat (w div 2)) us)
             (IntArray (dtype f) (nat (h div v_smpl f)) (nat (w div 2)) vs)
           = Inr (FloatArray (nat h) (nat w) rs, FloatArray (nat h) (nat w) gs,
                  FloatArray (nat h) (nat w) bs)
         \<and> length rs = nat h * nat w \<and> length gs = nat h * nat w \<and> length bs = nat h * nat w
         \<and> list_all (\<lambda>x. 0 \<le> x \<and> x \<le> 255) (rs @ gs @ bs)"
  unfolding to_rgb_8b_closed_form [OF init d w ew h eh leny valy lenu valu lenv valv]
  by (auto simp add: list_all_iff clip8_range)

theorem to_rgb_8b_result_arrays_witness:
  "nrows (fst (projr (to_rgb_8b binary64
       \<lparr> name = ''in.yuv'', mode = ''r'', width = 4, height = 2, colour = 420, depth = 8,
         handle = None, h_smpl = 2, v_smpl = 2, dtype = UInt8, round_bias = 0, shift = 0,
         y_shape = (2, 4), y_size = 8, uv_shape = (1, 2), uv_size = 2 \<rparr>
       (IntArray UInt8 2 4 [16, 16, 16, 16, 16, 16, 16, 16]) (IntArray UInt8 1 2 [128, 128])
       (IntArray UInt8 1 2 [128, 128])))) = 2
   \<and> ncols (fst (projr (to_rgb_8b binary64
       \<lparr> name = ''in.yuv'', mode = ''r'', width = 4, height = 2, colour = 420, depth = 8,
         handle = None, h_smpl = 2, v_smpl = 2, dtype = UInt8, round_bias = 0, shift = 0,
         y_shape = (2, 4), y_size = 8, uv_shape = (1, 2), uv_size = 2 \<rparr>
       (IntArray UInt8 2 4 [16, 16, 16, 16, 16, 16, 16, 16]) (IntArray UInt8 1 2 [128, 128])
       (IntArray UInt8 1 2 [128, 128])))) = 4
   \<and> \<not> is_uint8 (fst (projr (to_rgb_8b binary64
       \<lparr> name = ''in.yuv'', mode = ''r'', width = 4, height = 2, colour = 420, depth = 8,
         handle = None, h_smpl = 2, v_smpl = 2, dtype = UInt8, round_bias = 0, shift = 0,
         y_shape = (2, 4), y_size = 8, uv_shape = (1, 2), uv_size = 2 \<rparr>
       (IntArray UInt8 2 4 [16, 16, 16, 16, 16, 16, 16, 16]) (IntArray UInt8 1 2 [128, 128])
       (IntArray UInt8 1 2 [128, 128]))))"
proof -
  let ?F = "\<lparr> name = ''in.yuv'', mode = ''r'', width = 4, height = 2, colour = 420, depth = 8,
         handle = None, h_smpl = 2, v_smpl = 2, dtype = UInt8, round_bias = 0, shift = 0,
         y_shape = (2, 4), y_size = 8, uv_shape = (1, 2), uv_size = 2 \<rparr>"
  have init: "YuvFile_init ''in.yuv'' ''r'' 4 2 420 8 = Inr ?F"
    by (simp add: YuvFile_init_def CSPACE_420_def DEPTH_10_def)
  have d: "(8::int) = DEPTH_8 \<or> (8::int) = DEPTH_10" by (simp add: DEPTH_8_def)
  have w: "(0::int) < 4" and ew: "even (4::int)" and h: "(0::int) < 2" and eh: "even (2::int)"
    by simp_all
  have leny: "length [16, 16, 16, 16, 16, 16, 16, 16 :: int] = nat 2 * nat 4" by simp
  have valy: "valid_samples 8 [16, 16, 16, 16, 16, 16, 16, 16]" by (simp add: valid_samples_def)
  have lenu: "length [128, 128 :: int] = nat (2 div v_smpl ?F) * nat (4 div 2)" by simp
  have valu: "valid_samples 8 [128, 128]" by (simp add: valid_samples_def)
  from to_rgb_8b_result_arrays [OF init d w ew h eh leny valy lenu valu lenu valu, of binary64]
  obtain rs gs bs where
    "to_rgb_8b binary64 ?F (IntArray UInt8 2 4 [16, 16, 16, 16, 16, 16, 16, 16])
       (IntArray UInt8 1 2 [128, 128]) (IntArray UInt8 1 2 [128, 128])
     = Inr (FloatArray 2 4 rs, FloatArray 2 4 gs, FloatArray 2 4 bs)"
    by auto
  then show ?thesis by simp
qed

text \<open>The claim C8 as the specification states it fails: the arrays returned are not
  of unsigned 8-bit items.  For Y = 16, U = 128, V = 129 the red and green items are
  17.402 and 15.286 as binary64 has them.  (The conversion to \<^verbatim>\<open>np.uint8\<close> is in
  \<^verbatim>\<open>plot_rgb_8b\<close>.)\<close>

theorem to_rgb_8b_returns_float:
  "to_rgb_8b binary64 (projr (YuvFile_init ''in.yuv'' ''r'' 2 2 CSPACE_420 DEPTH_8))
     (IntArray UInt8 2 2 [16, 16, 16, 16]) (IntArray UInt8 1 1 [128]) (IntArray UInt8 1 1 [129])
   = Inr (FloatArray 2 2
            [1224556886179709 / 70368744177664, 1224556886179709 / 70368744177664,
             1224556886179709 / 70368744177664, 1224556886179709 / 70368744177664],
          FloatArray 2 2
            [8605252987998175 / 562949953421312, 8605252987998175 / 562949953421312,
             8605252987998175 / 562949953421312, 8605252987998175 / 562949953421312],
          FloatArray 2 2 [16, 16, 16, 16])
   \<and> \<not> is_uint8 (FloatArray 2 2
            [1224556886179709 / 70368744177664, 1224556886179709 / 70368744177664,
             1224556886179709 / 70368744177664, 1224556886179709 / 70368744177664])"
  by code_simp

end
